theory Spec2Isabelle
  imports Complex_Main "HOL-Library.Sublist"
begin

section \<open>JavaScript strings\<close>

text \<open>
  A JavaScript string is a sequence of UTF-16 code units. It is modelled as a
  \<^typ>\<open>string\<close>; a \<^typ>\<open>char\<close> stands for the code unit with the same number,
  so the model covers the code units \<open>0x00\<close> to \<open>0xFF\<close> (ASCII and the Latin-1
  supplement, which holds the accented letters of Spanish).
\<close>

definition isSpace :: "char \<Rightarrow> bool" where
  \<comment> \<open>the regular expression class \<open>\s\<close>, also what \<open>trim\<close> strips: TAB, LF, VT, FF, CR, space, NBSP\<close>
  "isSpace c = (of_char c \<in> {9, 10, 11, 12, 13, 32, 160 :: nat})"

definition isDigit :: "char \<Rightarrow> bool" where
  \<comment> \<open>the class \<open>\d\<close>\<close>
  "isDigit c = (48 \<le> (of_char c :: nat) \<and> (of_char c :: nat) \<le> 57)"

definition isWord :: "char \<Rightarrow> bool" where
  \<comment> \<open>the class \<open>\w\<close>: \<open>[A-Za-z0-9_]\<close>\<close>
  "isWord c = (let n = of_char c :: nat in
     (48 \<le> n \<and> n \<le> 57) \<or> (65 \<le> n \<and> n \<le> 90) \<or> n = 95 \<or> (97 \<le> n \<and> n \<le> 122))"

definition toLowerChar :: "char \<Rightarrow> char" where
  "toLowerChar c = (let n = of_char c :: nat in
     if (65 \<le> n \<and> n \<le> 90) \<or> (192 \<le> n \<and> n \<le> 222 \<and> n \<noteq> 215)
     then char_of (n + 32) else c)"

definition toLowerCase :: "string \<Rightarrow> string" where
  "toLowerCase s = map toLowerChar s"

definition trim :: "string \<Rightarrow> string" where
  "trim s = rev (dropWhile isSpace (rev (dropWhile isSpace s)))"

definition includesStr :: "string \<Rightarrow> string \<Rightarrow> bool" where
  \<comment> \<open>\<open>s.includes(t)\<close>\<close>
  "includesStr s t = sublist t s"

definition startsWith :: "string \<Rightarrow> string \<Rightarrow> bool" where
  \<comment> \<open>\<open>s.startsWith(t)\<close>\<close>
  "startsWith s t = prefix t s"

fun splitOn :: "char \<Rightarrow> string \<Rightarrow> string \<Rightarrow> string list" where
  \<comment> \<open>\<open>s.split(sep)\<close> for a separator of one code unit; the second argument is the
      piece being read, reversed\<close>
  "splitOn sep cur [] = [rev cur]"
| "splitOn sep cur (c # s) =
     (if c = sep then rev cur # splitOn sep [] s else splitOn sep (c # cur) s)"

definition split :: "string \<Rightarrow> char \<Rightarrow> string list" where
  "split s sep = splitOn sep [] s"

definition removeSpaces :: "string \<Rightarrow> string" where
  \<comment> \<open>\<open>s.replace(/\s+/g, "")\<close>\<close>
  "removeSpaces s = filter (\<lambda>c. \<not> isSpace c) s"

definition allDigits :: "string \<Rightarrow> bool" where
  \<comment> \<open>\<open>/^\d+$/.test(s)\<close>\<close>
  "allDigits s = (s \<noteq> [] \<and> list_all isDigit s)"

fun string_of_nat :: "nat \<Rightarrow> string" where
  \<comment> \<open>\<open>String(n)\<close> for the integer counter \<open>id\<close>\<close>
  "string_of_nat n =
     (if n < 10 then [char_of (48 + n)]
      else string_of_nat (n div 10) @ [char_of (48 + n mod 10)])"

declare string_of_nat.simps [simp del]

section \<open>Text normalizer\<close>

definition stripMarkChar :: "char \<Rightarrow> char" where
  \<comment> \<open>\<open>.normalize("NFD")\<close> followed by the removal of the combining marks
      \<open>U+0300\<close> to \<open>U+036F\<close>, on one code unit below
      \<open>0x100\<close>: the canonical decomposition of an accented Latin-1 letter is its base
      letter followed by combining marks of the removed range; every other code unit
      below \<open>0x100\<close> has no canonical decomposition\<close>
  "stripMarkChar c = (let n = of_char c :: nat in
     if 192 \<le> n \<and> n \<le> 197 then CHR ''A''
     else if n = 199 then CHR ''C''
     else if 200 \<le> n \<and> n \<le> 203 then CHR ''E''
     else if 204 \<le> n \<and> n \<le> 207 then CHR ''I''
     else if n = 209 then CHR ''N''
     else if 210 \<le> n \<and> n \<le> 214 then CHR ''O''
     else if 217 \<le> n \<and> n \<le> 220 then CHR ''U''
     else if n = 221 then CHR ''Y''
     else if 224 \<le> n \<and> n \<le> 229 then CHR ''a''
     else if n = 231 then CHR ''c''
     else if 232 \<le> n \<and> n \<le> 235 then CHR ''e''
     else if 236 \<le> n \<and> n \<le> 239 then CHR ''i''
     else if n = 241 then CHR ''n''
     else if 242 \<le> n \<and> n \<le> 246 then CHR ''o''
     else if 249 \<le> n \<and> n \<le> 252 then CHR ''u''
     else if n = 253 \<or> n = 255 then CHR ''y''
     else c)"

definition isSeparator :: "char \<Rightarrow> bool" where
  \<comment> \<open>the class \<open>[,\s-]\<close>\<close>
  "isSeparator c = (c = CHR '','' \<or> isSpace c \<or> c = CHR ''-'')"

fun collapseSeparators :: "bool \<Rightarrow> string \<Rightarrow> string" where
  \<comment> \<open>\<open>.replace(/[,\s-]+/g, " ")\<close>; the flag says that the run being read has
      already been replaced by its space\<close>
  "collapseSeparators inRun [] = []"
| "collapseSeparators inRun (c # s) =
     (if isSeparator c
      then (if inRun then collapseSeparators True s
            else CHR '' '' # collapseSeparators True s)
      else c # collapseSeparators False s)"

definition normalizeText :: "string \<Rightarrow> string" where
  "normalizeText text =
     trim (filter (\<lambda>c. isWord c \<or> isSpace c)
       (collapseSeparators False (map stripMarkChar (toLowerCase text))))"

subsection \<open>The memo cache\<close>

text \<open>
  \<open>textNormalizationCache\<close> is a JavaScript \<open>Map\<close>, which keeps its entries in
  insertion order: an association list, oldest entry first. Every call site passes a
  string as key.
\<close>

type_synonym textCache = "(string \<times> string) list"

definition cacheHas :: "textCache \<Rightarrow> string \<Rightarrow> bool" where
  "cacheHas m k = (k \<in> fst ` set m)"

definition cacheGet :: "textCache \<Rightarrow> string \<Rightarrow> string option" where
  "cacheGet m k = map_of m k"

definition cacheDelete :: "textCache \<Rightarrow> string \<Rightarrow> textCache" where
  "cacheDelete m k = filter (\<lambda>e. fst e \<noteq> k) m"

definition cacheSet :: "textCache \<Rightarrow> string \<Rightarrow> string \<Rightarrow> textCache" where
  \<comment> \<open>a key already present keeps its position, a new key goes last\<close>
  "cacheSet m k v =
     (if cacheHas m k then map (\<lambda>e. if fst e = k then (k, v) else e) m else m @ [(k, v)])"

definition cacheFirstKey :: "textCache \<Rightarrow> string option" where
  \<comment> \<open>\<open>keys().next().value\<close>; \<open>None\<close> is \<open>undefined\<close>\<close>
  "cacheFirstKey m = (case m of [] \<Rightarrow> None | e # _ \<Rightarrow> Some (fst e))"

definition cachedNormalizeText :: "textCache \<Rightarrow> string \<Rightarrow> string \<times> textCache" where
  "cachedNormalizeText cache text =
     (case cacheGet cache text of
        Some hit \<Rightarrow> (hit, cache)
      | None \<Rightarrow>
          (let normalized = normalizeText text;
               cache1 = (if length cache > 1000
                         then (case cacheFirstKey cache of
                                 None \<Rightarrow> cache
                               | Some firstKey \<Rightarrow> cacheDelete cache firstKey)
                         else cache)
           in (normalized, cacheSet cache1 text normalized)))"

fun callSequence :: "textCache \<Rightarrow> string list \<Rightarrow> string list \<times> textCache" where
  \<comment> \<open>the calls of \<open>cachedNormalizeText\<close> made one after the other on the module's cache:
      the values returned and the cache left behind\<close>
  "callSequence cache [] = ([], cache)"
| "callSequence cache (text # texts) =
     (let (r, cache1) = cachedNormalizeText cache text;
          (rs, cache2) = callSequence cache1 texts
      in (r # rs, cache2))"

definition cacheOk :: "textCache \<Rightarrow> bool" where
  \<comment> \<open>the invariant of the module's cache: keys are distinct and every entry holds the
      normal form of its key\<close>
  "cacheOk m = (distinct (map fst m) \<and> list_all (\<lambda>e. snd e = normalizeText (fst e)) m)"

section \<open>Decoded rows\<close>

text \<open>
  A decoded cell is \<open>null\<close>, a string, a number, a boolean or a date. The code
  observes a cell through its truthiness, the comparisons with \<open>""\<close> and \<open>0\<close>, and
  \<open>String(value)\<close>. A number and a date are carried as the text \<open>String\<close> gives for
  them: a number is falsy exactly when that text is \<open>0\<close> or \<open>NaN\<close>.
\<close>

datatype cell = CNull | CStr string | CNum string | CBool bool | CDate string

fun truthy :: "cell \<Rightarrow> bool" where
  "truthy CNull = False"
| "truthy (CStr s) = (s \<noteq> [])"
| "truthy (CNum s) = (s \<noteq> ''0'' \<and> s \<noteq> ''NaN'')"
| "truthy (CBool b) = b"
| "truthy (CDate s) = True"

fun toString :: "cell \<Rightarrow> string" where
  "toString CNull = ''null''"
| "toString (CStr s) = s"
| "toString (CNum s) = s"
| "toString (CBool b) = (if b then ''true'' else ''false'')"
| "toString (CDate s) = s"

definition DIRECTORY_MAX_ROWS :: nat where "DIRECTORY_MAX_ROWS = 800"
definition DIRECTORY_MAX_COLUMNS :: nat where "DIRECTORY_MAX_COLUMNS = 8"
definition HEADER_SCAN_ROWS :: nat where "HEADER_SCAN_ROWS = 20"

definition HEADER_TOKENS_extension :: "string list" where
  "HEADER_TOKENS_extension =
     [''interno'', ''internos'', ''extension'', ''ext'', ''anexo'', ''telefono'', ''telefonos'', ''int'']"

definition HEADER_TOKENS_department :: "string list" where
  "HEADER_TOKENS_department = [''sector'', ''departamento'', ''area'', ''unidad'', ''seccion'']"

definition HEADER_TOKENS_title :: "string list" where
  "HEADER_TOKENS_title = [''titulo'', ''cargo'', ''puesto'', ''funcion'']"

definition HEADER_TOKENS_name :: "string list" where
  "HEADER_TOKENS_name =
     [''apellido y nombre'', ''apellidos y nombres'', ''apellido'', ''nombre'', ''responsable'',
      ''contacto'']"

definition DEFAULT_extension :: int where "DEFAULT_extension = 1"
definition DEFAULT_department :: int where "DEFAULT_department = 2"
definition DEFAULT_title :: int where "DEFAULT_title = 3"
definition DEFAULT_name :: int where "DEFAULT_name = 4"

definition STOP_TOKEN_NORMALIZED :: "string list" where
  "STOP_TOKEN_NORMALIZED = map normalizeText [''telefonos internos reserva'', ''reserva 6000'']"

definition clampRows :: "cell list list \<Rightarrow> cell list list" where
  "clampRows rows = map (take DIRECTORY_MAX_COLUMNS) (take DIRECTORY_MAX_ROWS rows)"

definition normalizeCellValue :: "cell \<Rightarrow> string" where
  "normalizeCellValue v = (if v = CNull then [] else trim (toString v))"

definition normalizeExtensionValue :: "string \<Rightarrow> string" where
  \<comment> \<open>\<open>value.replace(/\.0+$/, "")\<close>: a final run of zeros that follows a dot goes, with the dot\<close>
  "normalizeExtensionValue v =
     (let r = rev v; zeros = takeWhile (\<lambda>c. c = CHR ''0'') r;
          rest = dropWhile (\<lambda>c. c = CHR ''0'') r
      in case rest of
           [] \<Rightarrow> v
         | c # front \<Rightarrow> if zeros \<noteq> [] \<and> c = CHR ''.'' then rev front else v)"

definition normalizeExtensionSearch :: "string \<Rightarrow> string" where
  "normalizeExtensionSearch v =
     (let digitsOnly = filter isDigit v
      in if digitsOnly \<noteq> [] then digitsOnly else toLowerCase v)"

definition isNumericExtension :: "string \<Rightarrow> bool" where
  "isNumericExtension v =
     (let cleaned = filter (\<lambda>c. c \<noteq> CHR ''.'') (removeSpaces v)
      in length cleaned > 0 \<and> allDigits cleaned)"

subsection \<open>Splitting a name cell\<close>

definition spaceRun :: "string \<Rightarrow> nat" where
  \<comment> \<open>how many code units a greedy \<open>\s*\<close> takes at the start of the string\<close>
  "spaceRun s = length (takeWhile isSpace s)"

definition matchAround :: "char \<Rightarrow> string \<Rightarrow> nat option" where
  \<comment> \<open>\<open>\s*X\s*\<close> matched at the start of the string, for a character \<open>X\<close> that is not
      a space: the length matched\<close>
  "matchAround x s =
     (let n = spaceRun s; rest = drop n s
      in case rest of
           [] \<Rightarrow> None
         | c # after \<Rightarrow> if c = x then Some (n + 1 + spaceRun after) else None)"

definition matchNewline :: "string \<Rightarrow> nat option" where
  \<comment> \<open>\<open>\r?\n\<close> matched at the start of the string\<close>
  "matchNewline s =
     (case s of
        [] \<Rightarrow> None
      | c # after \<Rightarrow>
          if c = CHR 0x0A then Some 1
          else if c = CHR 0x0D
          then (case after of [] \<Rightarrow> None | d # _ \<Rightarrow> if d = CHR 0x0A then Some 2 else None)
          else None)"

definition matchSpacedHyphen :: "string \<Rightarrow> nat option" where
  \<comment> \<open>\<open>\s+-\s+\<close> matched at the start of the string\<close>
  "matchSpacedHyphen s =
     (let n = spaceRun s; rest = drop n s
      in case rest of
           [] \<Rightarrow> None
         | c # after \<Rightarrow>
             if n > 0 \<and> c = CHR ''-'' \<and> spaceRun after > 0
             then Some (n + 1 + spaceRun after) else None)"

definition matchNameSeparator :: "string \<Rightarrow> nat option" where
  \<comment> \<open>the separator pattern of \<open>splitNames\<close> matched at the start of the string: the first
      alternative that matches wins\<close>
  "matchNameSeparator s =
     (case matchAround CHR ''/'' s of
        Some n \<Rightarrow> Some n
      | None \<Rightarrow>
     (case matchAround CHR '';'' s of
        Some n \<Rightarrow> Some n
      | None \<Rightarrow>
     (case matchAround CHR ''|'' s of
        Some n \<Rightarrow> Some n
      | None \<Rightarrow>
     (case matchNewline s of
        Some n \<Rightarrow> Some n
      | None \<Rightarrow> matchSpacedHyphen s))))"

fun splitSeparators :: "nat \<Rightarrow> string \<Rightarrow> string \<Rightarrow> string list" where
  \<comment> \<open>\<open>value.split(pattern)\<close>: the first argument counts the code units of a separator
      still to pass over, the second is the piece being read, reversed\<close>
  "splitSeparators k cur [] = [rev cur]"
| "splitSeparators (Suc k) cur (c # s) = splitSeparators k cur s"
| "splitSeparators 0 cur (c # s) =
     (case matchNameSeparator (c # s) of
        Some n \<Rightarrow> rev cur # splitSeparators (n - 1) [] s
      | None \<Rightarrow> splitSeparators 0 (c # cur) s)"

definition splitNames :: "string \<Rightarrow> string list" where
  "splitNames v = filter (\<lambda>name. length name > 0) (map trim (splitSeparators 0 [] v))"

definition matchesHeaderToken :: "string \<Rightarrow> string list \<Rightarrow> bool" where
  "matchesHeaderToken normalized tokens =
     list_ex (\<lambda>token. normalized = token \<or> includesStr normalized token) tokens"

section \<open>Header detector\<close>

text \<open>
  The header detector and the row extractor call \<open>cachedNormalizeText\<close>. The section
  on the memo cache proves that, in every state the module's cache can reach, a call
  returns what \<open>normalizeText\<close> returns, so the functions below call
  \<^const>\<open>normalizeText\<close> and leave the cache out of their state.
\<close>

record ColumnMap =
  extensionIndex :: int
  departmentIndex :: int
  titleIndex :: int
  nameIndex :: int

record HeaderMapping =
  headerRowIndex :: int
  columnMap :: ColumnMap

record HeaderScan =
  foundMap :: ColumnMap
  foundExtension :: bool
  foundDepartment :: bool
  foundTitle :: bool
  foundName :: bool

definition initialScan :: HeaderScan where
  "initialScan =
     \<lparr>foundMap = \<lparr>extensionIndex = -1, departmentIndex = -1, titleIndex = -1, nameIndex = -1\<rparr>,
      foundExtension = False, foundDepartment = False, foundTitle = False, foundName = False\<rparr>"

definition scanCell :: "HeaderScan \<Rightarrow> cell \<Rightarrow> nat \<Rightarrow> HeaderScan" where
  \<comment> \<open>the body of \<open>row.forEach((cell, idx) => ...)\<close>\<close>
  "scanCell st c idx =
     (let normalized = normalizeText (normalizeCellValue c)
      in if normalized = [] then st
         else
           let st1 = (if \<not> foundExtension st \<and> matchesHeaderToken normalized HEADER_TOKENS_extension
                      then st\<lparr>foundMap := (foundMap st)\<lparr>extensionIndex := int idx\<rparr>,
                              foundExtension := True\<rparr>
                      else st);
               st2 = (if \<not> foundDepartment st1 \<and> matchesHeaderToken normalized HEADER_TOKENS_department
                      then st1\<lparr>foundMap := (foundMap st1)\<lparr>departmentIndex := int idx\<rparr>,
                               foundDepartment := True\<rparr>
                      else st1);
               st3 = (if \<not> foundTitle st2 \<and> matchesHeaderToken normalized HEADER_TOKENS_title
                      then st2\<lparr>foundMap := (foundMap st2)\<lparr>titleIndex := int idx\<rparr>,
                               foundTitle := True\<rparr>
                      else st2)
           in (if \<not> foundName st3 \<and> matchesHeaderToken normalized HEADER_TOKENS_name
               then st3\<lparr>foundMap := (foundMap st3)\<lparr>nameIndex := int idx\<rparr>,
                        foundName := True\<rparr>
               else st3))"

fun scanCells :: "HeaderScan \<Rightarrow> nat \<Rightarrow> cell list \<Rightarrow> HeaderScan" where
  "scanCells st idx [] = st"
| "scanCells st idx (c # row) = scanCells (scanCell st c idx) (Suc idx) row"

definition defaultMapping :: HeaderMapping where
  "defaultMapping =
     \<lparr>headerRowIndex = -1,
      columnMap = \<lparr>extensionIndex = DEFAULT_extension, departmentIndex = DEFAULT_department,
                   titleIndex = DEFAULT_title, nameIndex = DEFAULT_name\<rparr>\<rparr>"

fun detectFrom :: "nat \<Rightarrow> cell list list \<Rightarrow> HeaderMapping" where
  \<comment> \<open>the loop \<open>for (let i = 0; i < maxRows; i += 1)\<close>, from row \<open>i\<close> on\<close>
  "detectFrom i [] = defaultMapping"
| "detectFrom i (row # rows) =
     (let st = scanCells initialScan 0 row
      in if foundName st \<and> (foundExtension st \<or> foundDepartment st)
         then \<lparr>headerRowIndex = int i, columnMap = foundMap st\<rparr>
         else detectFrom (Suc i) rows)"

definition detectHeaderMapping :: "cell list list \<Rightarrow> HeaderMapping" where
  "detectHeaderMapping rawData =
     (let maxRows = min (length rawData) HEADER_SCAN_ROWS
      in detectFrom 0 (take maxRows rawData))"

subsection \<open>The header row in the words of the specification\<close>

definition cellMatches :: "string list \<Rightarrow> cell \<Rightarrow> bool" where
  \<comment> \<open>the normalized cell equals a token of the dictionary or contains one\<close>
  "cellMatches tokens c =
     (\<exists>token \<in> set tokens.
        normalizeText (normalizeCellValue c) = token
        \<or> sublist token (normalizeText (normalizeCellValue c)))"

definition rowMatches :: "string list \<Rightarrow> cell list \<Rightarrow> bool" where
  "rowMatches tokens row = (\<exists>c \<in> set row. cellMatches tokens c)"

definition firstMatchingColumn :: "string list \<Rightarrow> cell list \<Rightarrow> int" where
  \<comment> \<open>the index of the first cell of the row that matches the dictionary, \<open>-1\<close> when none does\<close>
  "firstMatchingColumn tokens row =
     (if rowMatches tokens row
      then int (length (takeWhile (\<lambda>c. \<not> cellMatches tokens c) row))
      else -1)"

definition qualifiesAsHeader :: "cell list \<Rightarrow> bool" where
  "qualifiesAsHeader row =
     (rowMatches HEADER_TOKENS_name row
      \<and> (rowMatches HEADER_TOKENS_extension row \<or> rowMatches HEADER_TOKENS_department row))"

section \<open>Row extractor\<close>

record Personnel =
  idStr :: string
  name :: string
  department :: string
  extension :: string
  searchableName :: string
  searchableExtension :: string

fun uniqueIndicesLoop :: "int list \<Rightarrow> int list \<Rightarrow> int list \<Rightarrow> int list" where
  \<comment> \<open>\<open>seen\<close>, \<open>result\<close>, and the indices still to visit\<close>
  "uniqueIndicesLoop seen result [] = result"
| "uniqueIndicesLoop seen result (idx # rest) =
     (if idx < 0 then uniqueIndicesLoop seen result rest
      else if idx \<in> set seen then uniqueIndicesLoop seen result rest
      else uniqueIndicesLoop (idx # seen) (result @ [idx]) rest)"

definition uniqueIndices :: "int list \<Rightarrow> int list" where
  "uniqueIndices indices = uniqueIndicesLoop [] [] indices"

fun pickCellText :: "cell list \<Rightarrow> int list \<Rightarrow> string" where
  "pickCellText row [] = []"
| "pickCellText row (idx # rest) =
     (if idx < 0 \<or> idx \<ge> int (length row) then pickCellText row rest
      else let v = normalizeCellValue (row ! nat idx)
           in if v \<noteq> [] then v else pickCellText row rest)"

definition shouldStopProcessing :: "string list \<Rightarrow> bool \<Rightarrow> bool \<Rightarrow> bool" where
  "shouldStopProcessing values hasName hasNumericExtension =
     (if hasName \<or> hasNumericExtension then False
      else list_ex (\<lambda>v.
             if v = [] then False
             else let normalized = normalizeText v
                  in length normalized > 0
                     \<and> list_ex (\<lambda>token. includesStr normalized token) STOP_TOKEN_NORMALIZED) values)"

definition isBlankCell :: "cell \<Rightarrow> bool" where
  \<comment> \<open>\<open>!cell || cell === "" || cell === 0\<close>\<close>
  "isBlankCell c = (\<not> truthy c \<or> c = CStr [] \<or> c = CNum ''0'')"

record LoopState =
  personnel :: "Personnel list"
  nextId :: nat
  stopProcessing :: bool

definition keepName :: "string \<Rightarrow> bool" where
  \<comment> \<open>the predicate of \<open>names.filter\<close>\<close>
  "keepName nm =
     (nm \<noteq> []
      \<and> \<not> includesStr (toLowerCase nm) ''acalandra@servicoop.com''
      \<and> \<not> includesStr (toLowerCase nm) ''sector comunicaciones al interno''
      \<and> length (trim nm) > 0)"

fun pushNames :: "LoopState \<Rightarrow> string \<Rightarrow> string \<Rightarrow> string list \<Rightarrow> LoopState" where
  \<comment> \<open>\<open>filteredNames.forEach((name) => personnel.push({...}))\<close>\<close>
  "pushNames st dept extensionValue [] = st"
| "pushNames st dept extensionValue (nm # names) =
     pushNames
       (st\<lparr>personnel := personnel st @
              [\<lparr>idStr = string_of_nat (nextId st),
                name = nm,
                department = dept,
                extension = (if extensionValue \<noteq> [] then extensionValue else ''N/A''),
                searchableName = normalizeText nm,
                searchableExtension = normalizeExtensionSearch extensionValue\<rparr>],
            nextId := Suc (nextId st)\<rparr>)
       dept extensionValue names"

definition looksLikeHeader :: "cell list \<Rightarrow> bool" where
  \<comment> \<open>\<open>headerHasName && (headerHasExtension || headerHasDepartment)\<close>\<close>
  "looksLikeHeader row =
     (let rowValues = map normalizeCellValue row;
          normalizedRow = map normalizeText rowValues;
          headerHasName = list_ex (\<lambda>v. matchesHeaderToken v HEADER_TOKENS_name) normalizedRow;
          headerHasExtension = list_ex (\<lambda>v. matchesHeaderToken v HEADER_TOKENS_extension) normalizedRow;
          headerHasDepartment = list_ex (\<lambda>v. matchesHeaderToken v HEADER_TOKENS_department) normalizedRow
      in headerHasName \<and> (headerHasExtension \<or> headerHasDepartment))"

definition extensionRawOf :: "ColumnMap \<Rightarrow> cell list \<Rightarrow> string" where
  "extensionRawOf cm row =
     pickCellText row (uniqueIndices [extensionIndex cm, DEFAULT_extension, 0])"

definition nameRawOf :: "ColumnMap \<Rightarrow> cell list \<Rightarrow> string" where
  "nameRawOf cm row =
     pickCellText row (uniqueIndices [nameIndex cm, DEFAULT_name, DEFAULT_title])"

definition departmentRawOf :: "ColumnMap \<Rightarrow> cell list \<Rightarrow> string" where
  "departmentRawOf cm row =
     pickCellText row (uniqueIndices [departmentIndex cm, DEFAULT_department, DEFAULT_title])"

definition processRow :: "ColumnMap \<Rightarrow> LoopState \<Rightarrow> cell list \<Rightarrow> LoopState" where
  \<comment> \<open>one pass of the body of the loop over the rows; \<open>continue\<close> returns the state as it
      is, \<open>break\<close> returns it with \<open>stopProcessing\<close> set\<close>
  "processRow cm st row =
     (if list_all isBlankCell row then st
      else if looksLikeHeader row then st
      else
        let rowValues = map normalizeCellValue row;
            extensionRaw = extensionRawOf cm row;
            nameRaw = nameRawOf cm row;
            departmentRaw = departmentRawOf cm row;
            extensionValue = (if extensionRaw \<noteq> [] then normalizeExtensionValue extensionRaw else []);
            hasName = length nameRaw > 0;
            hasExtension = length extensionValue > 0;
            hasNumericExtension = (if extensionRaw \<noteq> [] then isNumericExtension extensionRaw else False)
        in if shouldStopProcessing rowValues hasName hasNumericExtension
           then st\<lparr>stopProcessing := True\<rparr>
           else if hasName \<or> hasExtension
           then
             let names = (if hasName then splitNames nameRaw else [''Sin Nombre'']);
                 dept = (if departmentRaw \<noteq> [] then departmentRaw else ''Sector sin identificar'');
                 filteredNames = filter keepName names
             in if length filteredNames = 0 then st
                else pushNames st dept extensionValue filteredNames
           else st)"

fun processRows :: "ColumnMap \<Rightarrow> LoopState \<Rightarrow> cell list list \<Rightarrow> LoopState" where
  \<comment> \<open>\<open>for (i = dataStartIndex; i < rawData.length && !stopProcessing; i += 1)\<close> over the
      rows from \<open>dataStartIndex\<close> on\<close>
  "processRows cm st [] = st"
| "processRows cm st (row # rows) =
     (if stopProcessing st then st else processRows cm (processRow cm st row) rows)"

definition dataStartIndex :: "HeaderMapping \<Rightarrow> nat" where
  "dataStartIndex h = (if headerRowIndex h \<ge> 0 then nat (headerRowIndex h + 1) else 0)"

definition initialLoop :: LoopState where
  "initialLoop = \<lparr>personnel = [], nextId = 1, stopProcessing = False\<rparr>"

definition processExcelData :: "cell list list \<Rightarrow> Personnel list" where
  "processExcelData rawData =
     (let h = detectHeaderMapping rawData
      in personnel (processRows (columnMap h) initialLoop (drop (dataStartIndex h) rawData)))"

subsection \<open>The stop row in the words of the specification\<close>

definition hasSentinelCell :: "cell list \<Rightarrow> bool" where
  \<comment> \<open>some cell's normalized text contains one of the two sentinel phrases\<close>
  "hasSentinelCell row =
     (\<exists>c \<in> set row.
        sublist ''telefonos internos reserva'' (normalizeText (normalizeCellValue c))
        \<or> sublist ''reserva 6000'' (normalizeText (normalizeCellValue c)))"

definition hasNoName :: "ColumnMap \<Rightarrow> cell list \<Rightarrow> bool" where
  "hasNoName cm row = (nameRawOf cm row = [])"

definition hasNoNumericExtension :: "ColumnMap \<Rightarrow> cell list \<Rightarrow> bool" where
  "hasNoNumericExtension cm row = (\<not> isNumericExtension (extensionRawOf cm row))"

subsection \<open>The record invariant in the words of the specification\<close>



section \<open>Directory cache\<close>

text \<open>
  \<open>refreshInternosCache\<close> is asynchronous. What it reads from outside (the result of
  \<open>fs.stat\<close>, the result of \<open>readXlsxFile\<close>, the clock) is an argument of the model, and
  the function is cut at its \<open>await\<close> of the load: \<open>refreshBegin\<close> is the synchronous
  block that follows \<open>fs.stat\<close>, \<open>refreshSettle\<close> the \<open>try/catch/finally\<close> that runs
  when the load has settled. Each of the two runs without interruption on the event loop.
  The payload \<open>{ personnel }\<close> is the record list itself.
\<close>

record JsError =
  code :: "string option"
  message :: string

type_synonym Payload = "Personnel list"

record InternosCache =
  mtimeMs :: rat
  payload :: "Payload option"
  inflight :: "nat option"
  lastError :: "JsError option"
  lastLoadedAt :: rat

definition internosCache0 :: InternosCache where
  "internosCache0 =
     \<lparr>mtimeMs = 0, payload = None, inflight = None, lastError = None, lastLoadedAt = 0\<rparr>"

definition loadPromise :: "JsError + cell list list \<Rightarrow> JsError + Payload" where
  \<comment> \<open>the body of the load, given what \<open>readXlsxFile\<close> gave: \<open>Inl\<close> is a rejection\<close>
  "loadPromise readResult =
     (case readResult of
        Inl e \<Rightarrow> Inl e
      | Inr rows \<Rightarrow>
          (let rawData = clampRows rows
           in if length rawData = 0
              then Inl \<lparr>code = None, message = ''No se encontraron datos en el archivo Excel''\<rparr>
              else Inr (processExcelData rawData)))"

datatype RefreshBegin = CacheHit Payload | JoinInflight nat | StartLoad

definition refreshBegin :: "InternosCache \<Rightarrow> bool \<Rightarrow> rat \<Rightarrow> RefreshBegin" where
  "refreshBegin c force statMtimeMs =
     (case (if \<not> force \<and> mtimeMs c = statMtimeMs then payload c else None) of
        Some p \<Rightarrow> CacheHit p
      | None \<Rightarrow> (case inflight c of Some running \<Rightarrow> JoinInflight running | None \<Rightarrow> StartLoad))"

definition refreshSettle ::
  "InternosCache \<Rightarrow> rat \<Rightarrow> rat \<Rightarrow> JsError + Payload \<Rightarrow> (JsError + Payload) \<times> InternosCache" where
  \<comment> \<open>\<open>Inl\<close> in the result is the error thrown to the invoker\<close>
  "refreshSettle c statMtimeMs now outcome =
     (case outcome of
        Inr p \<Rightarrow>
          (Inr p, c\<lparr>mtimeMs := statMtimeMs, payload := Some p, lastLoadedAt := now,
                   lastError := None, inflight := None\<rparr>)
      | Inl e \<Rightarrow> (Inl e, c\<lparr>lastError := Some e, inflight := None\<rparr>))"

datatype RefreshResult = Resolved Payload | Joined nat | Rejected JsError

definition refreshInternosCache ::
  "InternosCache \<Rightarrow> bool \<Rightarrow> JsError + rat \<Rightarrow> nat \<Rightarrow> JsError + cell list list \<Rightarrow> rat
     \<Rightarrow> RefreshResult \<times> InternosCache" where
  \<comment> \<open>one invocation with no other invocation in between: \<open>stat\<close> is the result of
      \<open>fs.stat\<close>, \<open>promiseId\<close> names the load it may start, \<open>readResult\<close> is what
      \<open>readXlsxFile\<close> gives, \<open>now\<close> is \<open>Date.now()\<close>\<close>
  "refreshInternosCache c force stat promiseId readResult now =
     (case stat of
        Inl e \<Rightarrow> (Rejected e, c)
      | Inr statMtimeMs \<Rightarrow>
          (case refreshBegin c force statMtimeMs of
             CacheHit p \<Rightarrow> (Resolved p, c)
           | JoinInflight running \<Rightarrow> (Joined running, c)
           | StartLoad \<Rightarrow>
               (case refreshSettle (c\<lparr>inflight := Some promiseId\<rparr>) statMtimeMs now
                       (loadPromise readResult) of
                  (Inr p, c1) \<Rightarrow> (Resolved p, c1)
                | (Inl e, c1) \<Rightarrow> (Rejected e, c1))))"

datatype Response =
  Json200 Payload | Loading503 | NotFound404 | Unavailable503

definition getInternos :: "InternosCache \<Rightarrow> Response" where
  \<comment> \<open>the handler of \<open>GET /api/internos\<close>\<close>
  "getInternos c =
     (case payload c of
        Some p \<Rightarrow> Json200 p
      | None \<Rightarrow>
          (case inflight c of
             Some running \<Rightarrow> Loading503
           | None \<Rightarrow>
               (case lastError c of
                  Some e \<Rightarrow> if code e = Some ''ENOENT'' then NotFound404 else Unavailable503
                | None \<Rightarrow> Unavailable503)))"

section \<open>Search engine\<close>

text \<open>
  The search hook imports \<open>cachedNormalizeText\<close> from a module that is not part of the
  sources at hand, so the normalizer is an argument \<open>normalizer\<close> of every function of this
  section. What is proved holds for every normalizer; the worked examples take
  \<^const>\<open>normalizeText\<close> for it.
\<close>

record SearchResult = Personnel +
  searchTerms :: "string list"
  searchScore :: nat

definition withSearch :: "Personnel \<Rightarrow> string list \<Rightarrow> nat \<Rightarrow> SearchResult" where
  \<comment> \<open>\<open>{...person, searchTerms, searchScore}\<close>\<close>
  "withSearch person terms score =
     Personnel.extend person (SearchResult.fields terms score)"

definition personOf :: "SearchResult \<Rightarrow> Personnel" where
  \<comment> \<open>the record without its two search fields\<close>
  "personOf r = Personnel.truncate r"

definition normalizeApellido :: "(string \<Rightarrow> string) \<Rightarrow> string \<Rightarrow> string" where
  "normalizeApellido normalizer nombre =
     (if nombre = [] then []
      else
        let base = (if CHR '','' \<in> set nombre
                    then takeWhile (\<lambda>c. c \<noteq> CHR '','') nombre
                    else (case split nombre CHR '' '' of [] \<Rightarrow> [] | w # _ \<Rightarrow> w))
        in normalizer (if base \<noteq> [] then base else nombre))"

definition computeSearchScore ::
  "(string \<Rightarrow> string) \<Rightarrow> Personnel \<Rightarrow> string \<Rightarrow> string list \<Rightarrow> nat" where
  "computeSearchScore normalizer person normalizedQuery terms =
     (let apellido = normalizeApellido normalizer (name person)
      in if apellido \<noteq> [] \<and> normalizedQuery = apellido then 3
         else
           let wordList = filter (\<lambda>w. w \<noteq> []) (split (searchableName person) CHR '' '');
               startsWithAll =
                 list_all (\<lambda>term. list_ex (\<lambda>w. startsWith w term \<or> w = term) wordList) terms
           in if startsWithAll then 2
              else if list_all (\<lambda>term. includesStr (searchableName person) term) terms then 1
              else 0)"

fun addResults ::
  "Personnel list \<times> string list \<Rightarrow> Personnel list \<Rightarrow> Personnel list \<times> string list" where
  \<comment> \<open>the closure \<open>addResults\<close> on its two captured variables \<open>results\<close> and \<open>seen\<close>\<close>
  "addResults (results, seen) [] = (results, seen)"
| "addResults (results, seen) (item # items) =
     (if idStr item \<in> set seen then addResults (results, seen) items
      else addResults (results @ [item], idStr item # seen) items)"

definition departmentMatches :: "(string \<Rightarrow> string) \<Rightarrow> string \<Rightarrow> Personnel list \<Rightarrow> Personnel list" where
  "departmentMatches normalizer normalizedQuery allPersonnel =
     filter (\<lambda>person. includesStr (normalizer (department person)) normalizedQuery) allPersonnel"

definition exactMatches :: "string list \<Rightarrow> Personnel list \<Rightarrow> Personnel list" where
  "exactMatches terms allPersonnel =
     filter (\<lambda>person.
        list_all (\<lambda>term.
          list_ex (\<lambda>w. startsWith w term \<or> w = term) (split (searchableName person) CHR '' ''))
          terms) allPersonnel"

definition nameDepartmentSearch ::
  "(string \<Rightarrow> string) \<Rightarrow> string \<Rightarrow> string list \<Rightarrow> Personnel list \<Rightarrow> Personnel list" where
  \<comment> \<open>the \<open>else\<close> branch of \<open>if (isNumericQuery)\<close>\<close>
  "nameDepartmentSearch normalizer normalizedQuery terms allPersonnel =
     (let deptMatches = departmentMatches normalizer normalizedQuery allPersonnel;
          exact = exactMatches terms allPersonnel;
          st1 = (if length exact > 0
                 then addResults ([], [])
                        (filter (\<lambda>person. extension person \<in> set (map extension exact)) allPersonnel)
                 else addResults ([], [])
                        (filter (\<lambda>person.
                           list_all (\<lambda>term. includesStr (searchableName person) term) terms)
                           allPersonnel));
          st2 = (if length deptMatches > 0 \<and> length terms = 1
                 then addResults st1 deptMatches else st1)
      in fst st2)"

definition searchTermsOf :: "string \<Rightarrow> string list" where
  \<comment> \<open>\<open>normalizedQuery.split(' ').filter(term => term.length > 0)\<close>\<close>
  "searchTermsOf normalizedQuery =
     filter (\<lambda>term. length term > 0) (split normalizedQuery CHR '' '')"

definition filteredResults ::
  "(string \<Rightarrow> string) \<Rightarrow> string \<Rightarrow> Personnel list \<Rightarrow> SearchResult list" where
  "filteredResults normalizer query allPersonnel =
     (if trim query = [] \<or> length query < 2 then []
      else
        let normalizedQuery = normalizer (trim query);
            terms = searchTermsOf normalizedQuery;
            numericQuery = removeSpaces normalizedQuery;
            isNumericQuery = allDigits numericQuery;
            matchingPersonnel =
              (if isNumericQuery
               then filter (\<lambda>person. includesStr (searchableExtension person) numericQuery)
                      allPersonnel
               else nameDepartmentSearch normalizer normalizedQuery terms allPersonnel)
        in map (\<lambda>person.
                  withSearch person terms (computeSearchScore normalizer person normalizedQuery terms))
             matchingPersonnel)"

subsection \<open>De-duplication by id in the words of the specification\<close>

fun dedupById :: "Personnel list \<Rightarrow> Personnel list" where
  \<comment> \<open>a record stays where it is first seen; every later record with its id goes\<close>
  "dedupById [] = []"
| "dedupById (p # ps) = p # filter (\<lambda>q. idStr q \<noteq> idStr p) (dedupById ps)"

subsection \<open>The name search in the words of the specification\<close>

definition isExactMatch :: "string list \<Rightarrow> Personnel \<Rightarrow> bool" where
  \<comment> \<open>every query term equals, or is a prefix of, one of the tokens of \<open>searchableName\<close>\<close>
  "isExactMatch terms person =
     (\<forall>term \<in> set terms.
        \<exists>w \<in> set (split (searchableName person) CHR '' ''). term = w \<or> prefix term w)"

definition sharesExtension :: "Personnel list \<Rightarrow> Personnel \<Rightarrow> bool" where
  \<comment> \<open>the record has the extension of one of the given records\<close>
  "sharesExtension matched person = (\<exists>m \<in> set matched. extension person = extension m)"

subsection \<open>The digits-only variant of a query in the words of the specification\<close>

definition digitsOnly :: "string \<Rightarrow> string" where
  \<comment> \<open>the digits of the string, in order\<close>
  "digitsOnly s = filter isDigit s"

section \<open>Reload invocations on the event loop\<close>

text \<open>
  Several invocations of \<open>refreshInternosCache\<close> can be pending at once. Each one runs
  in three steps on the single-threaded event loop: the call, which requests
  \<open>fs.stat\<close>; the synchronous block that runs when its \<open>fs.stat\<close> has resolved
  (\<^const>\<open>refreshBegin\<close>, and the start of the load); and, for the invocation that
  started a load, the \<open>try/catch/finally\<close> that runs when the load has settled
  (\<^const>\<open>refreshSettle\<close>). An event is one such step; the order of the events is the
  schedule. An invocation is named by a number, and the load it starts carries its
  number in \<open>inflight\<close>. Between the moment a load settles and the moment the
  \<open>finally\<close> block clears \<open>inflight\<close>, an invocation that reads \<open>inflight\<close> joins the
  settled load, as it does before the load settles; the two moments are one event here.
\<close>

datatype Event =
    Issue nat bool
  | StatDone nat "JsError + rat"
  | LoadDone nat "JsError + cell list list" rat

record Server =
  cacheOf :: InternosCache
  awaitingStat :: "(nat \<times> bool) list"
  awaitingLoad :: "(nat \<times> rat) list"
  loadsStarted :: nat

definition postStat :: "Server \<Rightarrow> nat \<Rightarrow> bool \<Rightarrow> JsError + rat \<Rightarrow> Server" where
  \<comment> \<open>what invocation \<open>i\<close> does when its \<open>fs.stat\<close> has resolved; a load it starts is
      counted and remembered with the modification time the invocation holds\<close>
  "postStat s i force stat =
     (case stat of
        Inl e \<Rightarrow> s
      | Inr statMtimeMs \<Rightarrow>
          (case refreshBegin (cacheOf s) force statMtimeMs of
             CacheHit p \<Rightarrow> s
           | JoinInflight running \<Rightarrow> s
           | StartLoad \<Rightarrow>
               s\<lparr>cacheOf := (cacheOf s)\<lparr>inflight := Some i\<rparr>,
                 awaitingLoad := (i, statMtimeMs) # awaitingLoad s,
                 loadsStarted := Suc (loadsStarted s)\<rparr>))"

fun step :: "Server \<Rightarrow> Event \<Rightarrow> Server" where
  "step s (Issue i force) = s\<lparr>awaitingStat := (i, force) # awaitingStat s\<rparr>"
| "step s (StatDone i stat) =
     (case map_of (awaitingStat s) i of
        None \<Rightarrow> s
      | Some force \<Rightarrow>
          postStat (s\<lparr>awaitingStat := filter (\<lambda>e. fst e \<noteq> i) (awaitingStat s)\<rparr>) i force stat)"
| "step s (LoadDone i readResult now) =
     (case map_of (awaitingLoad s) i of
        None \<Rightarrow> s
      | Some statMtimeMs \<Rightarrow>
          s\<lparr>cacheOf := snd (refreshSettle (cacheOf s) statMtimeMs now (loadPromise readResult)),
            awaitingLoad := filter (\<lambda>e. fst e \<noteq> i) (awaitingLoad s)\<rparr>)"

fun runEvents :: "Server \<Rightarrow> Event list \<Rightarrow> Server" where
  "runEvents s [] = s"
| "runEvents s (e # evs) = runEvents (step s e) evs"

definition serverAtStart :: Server where
  "serverAtStart =
     \<lparr>cacheOf = internosCache0, awaitingStat = [], awaitingLoad = [], loadsStarted = 0\<rparr>"

fun isLoadDone :: "Event \<Rightarrow> bool" where
  "isLoadDone (LoadDone i readResult now) = True"
| "isLoadDone e = False"

definition singleFlight :: "Server \<Rightarrow> bool" where
  \<comment> \<open>\<open>inflight\<close> names the one load that has not settled, and is \<open>null\<close> when there is
      none\<close>
  "singleFlight s =
     (case inflight (cacheOf s) of
        None \<Rightarrow> awaitingLoad s = []
      | Some i \<Rightarrow> map fst (awaitingLoad s) = [i])"

definition loadBudget :: "Server \<Rightarrow> nat" where
  \<comment> \<open>the loads started so far, and one more when none is in flight\<close>
  "loadBudget s = loadsStarted s + (if awaitingLoad s = [] then 1 else 0)"

section \<open>Worked examples\<close>

definition headerRow :: "cell list" where
  "headerRow = [CStr ''APELLIDO Y NOMBRE'', CStr ''SECTOR'', CStr ''INTERNO'']"

definition gridWithHeader :: "cell list list" where
  \<comment> \<open>three rows of preamble, then the header in row 3\<close>
  "gridWithHeader =
     [[CStr ''Listado 2024''], [CNull, CNull], [CStr ''Actualizado''], headerRow,
      [CStr ''Perez, Juan'', CStr ''Ventas'', CNum ''101'']]"

definition gridWithoutHeader :: "cell list list" where
  "gridWithoutHeader =
     [[CNull, CNum ''101'', CStr ''Ventas'', CNull, CStr ''Juan Perez'']]"

definition columnsOfExample :: ColumnMap where
  "columnsOfExample = \<lparr>extensionIndex = 1, departmentIndex = 2, titleIndex = -1, nameIndex = 4\<rparr>"

definition headerRowFive :: "cell list" where
  "headerRowFive = [CNull, CStr ''INTERNO'', CStr ''SECTOR'', CNull, CStr ''APELLIDO Y NOMBRE'']"

definition rowJuan :: "cell list" where
  "rowJuan = [CNull, CStr ''101'', CStr ''Ventas'', CNull, CStr ''Juan Perez'']"

definition rowAna :: "cell list" where
  "rowAna = [CNull, CStr ''102'', CStr ''Compras'', CNull, CStr ''Ana Gomez'']"


definition sentinelRow :: "cell list" where
  "sentinelRow = [CStr ''TELEFONOS INTERNOS RESERVA'']"

definition sentinelRowWithContact :: "cell list" where
  \<comment> \<open>a sentinel row that also holds a name token outside the name columns\<close>
  "sentinelRowWithContact =
     [CStr ''TELEFONOS INTERNOS RESERVA'', CNull, CNull, CNull, CNull, CStr ''contacto'']"

definition gridWithStop :: "cell list list" where
  "gridWithStop = [headerRowFive, rowJuan, sentinelRow, rowAna]"

definition gridSkippedSentinel :: "cell list list" where
  "gridSkippedSentinel = [headerRowFive, sentinelRowWithContact, rowJuan]"

definition recordJuan :: Personnel where
  "recordJuan =
     \<lparr>idStr = ''1'', name = ''Juan Perez'', department = ''Ventas'', extension = ''101'',
      searchableName = ''juan perez'', searchableExtension = ''101''\<rparr>"


definition person :: "string \<Rightarrow> string \<Rightarrow> string \<Rightarrow> string \<Rightarrow> string \<Rightarrow> string \<Rightarrow> Personnel" where
  "person i n d e sn se =
     \<lparr>idStr = i, name = n, department = d, extension = e, searchableName = sn,
      searchableExtension = se\<rparr>"

definition juanPerez :: "string \<Rightarrow> string \<Rightarrow> Personnel" where
  \<comment> \<open>the record \<open>{name: "Juan Perez", ext: "101"}\<close> with a given id and department\<close>
  "juanPerez i d = person i ''Juan Perez'' d ''101'' ''juan perez'' ''101''"

definition anaGomez :: "string \<Rightarrow> string \<Rightarrow> Personnel" where
  "anaGomez i d = person i ''Ana Gomez'' d ''101'' ''ana gomez'' ''101''"

definition ventasLopez :: Personnel where
  "ventasLopez = person ''1'' ''Ventas Lopez'' ''Compras'' ''101'' ''ventas lopez'' ''101''"

definition anaOfVentas :: Personnel where
  "anaOfVentas = person ''2'' ''Ana Gomez'' ''Ventas'' ''102'' ''ana gomez'' ''102''"

definition cacheWithJuan :: InternosCache where
  \<comment> \<open>a cache that holds a snapshot read at modification time 5\<close>
  "cacheWithJuan =
     \<lparr>mtimeMs = 5, payload = Some [recordJuan], inflight = None, lastError = None,
      lastLoadedAt = 6\<rparr>"

definition readFailure :: JsError where
  "readFailure = \<lparr>code = Some ''EIO'', message = ''read failed''\<rparr>"

definition scheduleCoalesced :: "Event list" where
  \<comment> \<open>two forced reloads; both \<open>fs.stat\<close> results arrive before the load settles\<close>
  "scheduleCoalesced =
     [Issue 1 True, Issue 2 True, StatDone 1 (Inr 7), StatDone 2 (Inr 7),
      LoadDone 1 (Inr [rowAna]) 9]"

definition scheduleLateStat :: "Event list" where
  \<comment> \<open>two forced reloads; the second is issued while the load of the first is in flight,
      and its \<open>fs.stat\<close> result arrives after that load has settled\<close>
  "scheduleLateStat =
     [Issue 1 True, StatDone 1 (Inr 7), Issue 2 True, LoadDone 1 (Inr [rowAna]) 9,
      StatDone 2 (Inr 7)]"

section \<open>Properties of the memo cache\<close>

lemma cacheGet_None: "cacheGet m k = None \<longleftrightarrow> k \<notin> fst ` set m"
  by (simp add: cacheGet_def map_of_eq_None_iff)

lemma cacheGet_ok: "cacheOk m \<Longrightarrow> cacheGet m k = Some v \<Longrightarrow> v = normalizeText k"
  by (auto simp: cacheOk_def cacheGet_def list_all_iff dest!: map_of_SomeD)

lemma cachedNormalizeText_value:
  "cacheOk m \<Longrightarrow> fst (cachedNormalizeText m k) = normalizeText k"
  by (auto simp: cachedNormalizeText_def Let_def dest: cacheGet_ok split: option.splits)

lemma cacheOk_delete: "cacheOk m \<Longrightarrow> cacheOk (cacheDelete m k)"
  by (auto simp: cacheOk_def cacheDelete_def list_all_iff distinct_map_filter)

lemma cacheOk_set_new:
  "cacheOk m \<Longrightarrow> k \<notin> fst ` set m \<Longrightarrow> cacheOk (cacheSet m k (normalizeText k))"
  by (auto simp: cacheOk_def cacheSet_def cacheHas_def list_all_iff)

lemma keys_delete: "fst ` set (cacheDelete m k) \<subseteq> fst ` set m"
  by (auto simp: cacheDelete_def)

lemma cachedNormalizeText_ok:
  "cacheOk m \<Longrightarrow> cacheOk (snd (cachedNormalizeText m k))"
  using keys_delete
  by (auto simp: cachedNormalizeText_def Let_def cacheGet_None
      intro!: cacheOk_set_new cacheOk_delete split: option.splits)

lemma callSequence_ok:
  "cacheOk m \<Longrightarrow> cacheOk (snd (callSequence m ts))"
  by (induction ts arbitrary: m) (auto simp: case_prod_beta cachedNormalizeText_ok)

lemma callSequence_value:
  "cacheOk m \<Longrightarrow> fst (callSequence m ts) = map normalizeText ts"
proof (induction ts arbitrary: m)
  case Nil
  then show ?case by simp
next
  case (Cons t ts)
  from Cons.prems have ok: "cacheOk (snd (cachedNormalizeText m t))"
    by (rule cachedNormalizeText_ok)
  show ?case
    using Cons.IH [OF ok] cachedNormalizeText_value [OF Cons.prems, of t]
    by (simp add: case_prod_beta)
qed

text \<open>
  Claim C10. The module's cache starts empty and only \<open>cachedNormalizeText\<close> writes to
  it. Whatever calls came before, with their hits, misses and evictions, the next call
  returns for its input exactly what \<open>normalizeText\<close> returns for it.
\<close>

theorem cachedNormalizeText_refines:
  "fst (cachedNormalizeText (snd (callSequence [] earlier)) text) = normalizeText text"
  by (rule cachedNormalizeText_value, rule callSequence_ok) (simp add: cacheOk_def)

subsection \<open>The size of the cache\<close>

lemma length_delete_first:
  "cacheOk (e # m) \<Longrightarrow> length (cacheDelete (e # m) (fst e)) = length m"
proof -
  assume "cacheOk (e # m)"
  then have "\<forall>x\<in>set m. fst x \<noteq> fst e"
    by (auto simp: cacheOk_def image_iff)
  then have "filter (\<lambda>x. fst x \<noteq> fst e) m = m"
    by simp
  then show ?thesis
    by (simp add: cacheDelete_def)
qed

lemma length_cacheSet_new:
  "k \<notin> fst ` set m \<Longrightarrow> length (cacheSet m k v) = Suc (length m)"
  by (simp add: cacheSet_def cacheHas_def)

lemma cachedNormalizeText_size:
  assumes ok: "cacheOk m" and le: "length m \<le> 1001"
  shows "length (snd (cachedNormalizeText m k)) \<le> 1001"
proof (cases "cacheGet m k")
  case (Some v)
  then show ?thesis using le by (simp add: cachedNormalizeText_def)
next
  case None
  then have new: "k \<notin> fst ` set m" by (simp add: cacheGet_None)
  show ?thesis
  proof (cases "length m > 1000")
    case False
    then show ?thesis using None new
      by (simp add: cachedNormalizeText_def Let_def length_cacheSet_new)
  next
    case True
    then obtain e m' where m: "m = e # m'" by (cases m) auto
    have new': "k \<notin> fst ` set (cacheDelete m (fst e))"
      using new keys_delete by blast
    show ?thesis using None True le new' ok
      by (simp add: cachedNormalizeText_def Let_def cacheFirstKey_def m
          length_cacheSet_new length_delete_first)
  qed
qed

lemma callSequence_size:
  "cacheOk m \<Longrightarrow> length m \<le> 1001 \<Longrightarrow> length (snd (callSequence m ts)) \<le> 1001"
proof (induction ts arbitrary: m)
  case Nil
  then show ?case by simp
next
  case (Cons t ts)
  show ?case
    using Cons.IH [OF cachedNormalizeText_ok [OF Cons.prems(1)]
                      cachedNormalizeText_size [OF Cons.prems]]
    by (simp add: case_prod_beta)
qed

text \<open>
  The bound that every reachable cache meets is 1001 entries: the eviction test is
  \<open>size > 1000\<close>, so a cache of exactly 1000 entries takes one more without evicting.
\<close>

lemma cache_size_le_1001: "length (snd (callSequence [] ts)) \<le> 1001"
  by (rule callSequence_size) (simp_all add: cacheOk_def)

lemma cachedNormalizeText_miss_small:
  "k \<notin> fst ` set m \<Longrightarrow> length m \<le> 1000 \<Longrightarrow>
     snd (cachedNormalizeText m k) = m @ [(k, normalizeText k)]"
proof -
  assume new: "k \<notin> fst ` set m" and le: "length m \<le> 1000"
  from new have "cacheGet m k = None" by (simp add: cacheGet_None)
  then show ?thesis using new le
    by (simp add: cachedNormalizeText_def Let_def cacheSet_def cacheHas_def)
qed

lemma callSequence_fresh:
  "distinct ks \<Longrightarrow> set ks \<inter> fst ` set m = {} \<Longrightarrow> length m + length ks \<le> 1001 \<Longrightarrow>
     snd (callSequence m ks) = m @ map (\<lambda>k. (k, normalizeText k)) ks"
proof (induction ks arbitrary: m)
  case Nil
  then show ?case by simp
next
  case (Cons k ks)
  have step: "snd (cachedNormalizeText m k) = m @ [(k, normalizeText k)]"
    using Cons.prems by (intro cachedNormalizeText_miss_small) auto
  have "snd (callSequence (m @ [(k, normalizeText k)]) ks)
          = (m @ [(k, normalizeText k)]) @ map (\<lambda>k. (k, normalizeText k)) ks"
    using Cons.prems by (intro Cons.IH) auto
  then show ?case using step by (simp add: case_prod_beta)
qed

lemma distinct_replicate_keys: "distinct (map (\<lambda>n. replicate n c) [0..<k])"
  by (auto simp: distinct_map intro!: inj_onI dest: arg_cong [where f = length])

lemma fresh_keys_size:
  "n \<le> 1001 \<Longrightarrow>
     length (snd (callSequence [] (map (\<lambda>n. replicate n c) [0..<n]))) = n"
  using callSequence_fresh [OF distinct_replicate_keys [of c n], of "[]"]
  by (simp del: upt_Suc)

text \<open>
  Claim C8. The claim bounds the cache by 1000 entries. On the code the bound is missed
  by one: after 1001 calls on pairwise different strings (here the strings of 0 to 1000
  letters \<open>a\<close>), starting from the empty cache, the cache holds 1001 entries.
\<close>

theorem cache_holds_1001_entries:
  "length (snd (callSequence [] (map (\<lambda>n. replicate n CHR ''a'') [0..<1001]))) = 1001"
  by (rule fresh_keys_size) (rule order_refl)

section \<open>Properties of the header detector\<close>

lemma includesStr_Nil: "includesStr [] t = (t = [])"
  by (simp add: includesStr_def)

lemma matchesHeaderToken_Nil:
  "\<not> matchesHeaderToken [] HEADER_TOKENS_extension"
  "\<not> matchesHeaderToken [] HEADER_TOKENS_department"
  "\<not> matchesHeaderToken [] HEADER_TOKENS_title"
  "\<not> matchesHeaderToken [] HEADER_TOKENS_name"
  by (simp_all add: matchesHeaderToken_def includesStr_Nil HEADER_TOKENS_extension_def
      HEADER_TOKENS_department_def HEADER_TOKENS_title_def HEADER_TOKENS_name_def)

lemma matchesHeaderToken_cellMatches:
  "matchesHeaderToken (normalizeText (normalizeCellValue c)) tokens = cellMatches tokens c"
  by (simp add: matchesHeaderToken_def cellMatches_def list_ex_iff includesStr_def)

lemma cellMatches_empty:
  "normalizeText (normalizeCellValue c) = [] \<Longrightarrow> \<not> cellMatches HEADER_TOKENS_extension c"
  "normalizeText (normalizeCellValue c) = [] \<Longrightarrow> \<not> cellMatches HEADER_TOKENS_department c"
  "normalizeText (normalizeCellValue c) = [] \<Longrightarrow> \<not> cellMatches HEADER_TOKENS_title c"
  "normalizeText (normalizeCellValue c) = [] \<Longrightarrow> \<not> cellMatches HEADER_TOKENS_name c"
  using matchesHeaderToken_Nil
  by (simp_all add: matchesHeaderToken_cellMatches [symmetric])

lemma scanCell_found:
  "foundExtension (scanCell st c idx) = (foundExtension st \<or> cellMatches HEADER_TOKENS_extension c)"
  "foundDepartment (scanCell st c idx) = (foundDepartment st \<or> cellMatches HEADER_TOKENS_department c)"
  "foundTitle (scanCell st c idx) = (foundTitle st \<or> cellMatches HEADER_TOKENS_title c)"
  "foundName (scanCell st c idx) = (foundName st \<or> cellMatches HEADER_TOKENS_name c)"
  by (auto simp: scanCell_def Let_def matchesHeaderToken_cellMatches cellMatches_empty)

lemma scanCell_index:
  "extensionIndex (foundMap (scanCell st c idx)) =
     (if \<not> foundExtension st \<and> cellMatches HEADER_TOKENS_extension c then int idx
      else extensionIndex (foundMap st))"
  "departmentIndex (foundMap (scanCell st c idx)) =
     (if \<not> foundDepartment st \<and> cellMatches HEADER_TOKENS_department c then int idx
      else departmentIndex (foundMap st))"
  "titleIndex (foundMap (scanCell st c idx)) =
     (if \<not> foundTitle st \<and> cellMatches HEADER_TOKENS_title c then int idx
      else titleIndex (foundMap st))"
  "nameIndex (foundMap (scanCell st c idx)) =
     (if \<not> foundName st \<and> cellMatches HEADER_TOKENS_name c then int idx
      else nameIndex (foundMap st))"
  by (auto simp: scanCell_def Let_def matchesHeaderToken_cellMatches cellMatches_empty)

lemma scanCell_more: "ColumnMap.more (foundMap (scanCell st c idx)) = ColumnMap.more (foundMap st)"
  by (simp add: scanCell_def Let_def)


lemma rowMatches_Cons: "rowMatches tokens (c # row) = (cellMatches tokens c \<or> rowMatches tokens row)"
  by (simp add: rowMatches_def)

lemma rowMatches_Nil: "\<not> rowMatches tokens []"
  by (simp add: rowMatches_def)

lemma firstMatchingColumn_Cons:
  "firstMatchingColumn tokens (c # row) =
     (if cellMatches tokens c then 0
      else if rowMatches tokens row then 1 + firstMatchingColumn tokens row else -1)"
  by (simp add: firstMatchingColumn_def rowMatches_Cons)

lemma scanCells_found:
  "foundExtension (scanCells st k row) = (foundExtension st \<or> rowMatches HEADER_TOKENS_extension row)"
  "foundDepartment (scanCells st k row) = (foundDepartment st \<or> rowMatches HEADER_TOKENS_department row)"
  "foundTitle (scanCells st k row) = (foundTitle st \<or> rowMatches HEADER_TOKENS_title row)"
  "foundName (scanCells st k row) = (foundName st \<or> rowMatches HEADER_TOKENS_name row)"
  by (induction row arbitrary: st k; simp add: rowMatches_Nil rowMatches_Cons scanCell_found; blast)+

lemma scanCells_more:
  "ColumnMap.more (foundMap (scanCells st k row)) = ColumnMap.more (foundMap st)"
  by (induction row arbitrary: st k) (simp_all add: scanCell_more)

lemma scanCells_extensionIndex:
  "extensionIndex (foundMap (scanCells st k row)) =
     (if \<not> foundExtension st \<and> rowMatches HEADER_TOKENS_extension row
      then int k + firstMatchingColumn HEADER_TOKENS_extension row
      else extensionIndex (foundMap st))"
  by (induction row arbitrary: st k)
     (simp_all add: rowMatches_Nil rowMatches_Cons firstMatchingColumn_Cons scanCell_found
        scanCell_index)

lemma scanCells_departmentIndex:
  "departmentIndex (foundMap (scanCells st k row)) =
     (if \<not> foundDepartment st \<and> rowMatches HEADER_TOKENS_department row
      then int k + firstMatchingColumn HEADER_TOKENS_department row
      else departmentIndex (foundMap st))"
  by (induction row arbitrary: st k)
     (simp_all add: rowMatches_Nil rowMatches_Cons firstMatchingColumn_Cons scanCell_found
        scanCell_index)

lemma scanCells_titleIndex:
  "titleIndex (foundMap (scanCells st k row)) =
     (if \<not> foundTitle st \<and> rowMatches HEADER_TOKENS_title row
      then int k + firstMatchingColumn HEADER_TOKENS_title row
      else titleIndex (foundMap st))"
  by (induction row arbitrary: st k)
     (simp_all add: rowMatches_Nil rowMatches_Cons firstMatchingColumn_Cons scanCell_found
        scanCell_index)

lemma scanCells_nameIndex:
  "nameIndex (foundMap (scanCells st k row)) =
     (if \<not> foundName st \<and> rowMatches HEADER_TOKENS_name row
      then int k + firstMatchingColumn HEADER_TOKENS_name row
      else nameIndex (foundMap st))"
  by (induction row arbitrary: st k)
     (simp_all add: rowMatches_Nil rowMatches_Cons firstMatchingColumn_Cons scanCell_found
        scanCell_index)

lemma scanRow_map:
  "foundMap (scanCells initialScan 0 row) =
     \<lparr>extensionIndex = firstMatchingColumn HEADER_TOKENS_extension row,
      departmentIndex = firstMatchingColumn HEADER_TOKENS_department row,
      titleIndex = firstMatchingColumn HEADER_TOKENS_title row,
      nameIndex = firstMatchingColumn HEADER_TOKENS_name row\<rparr>"
  by (rule ColumnMap.equality)
     (simp_all add: scanCells_extensionIndex scanCells_departmentIndex scanCells_titleIndex
        scanCells_nameIndex scanCells_more initialScan_def firstMatchingColumn_def)

lemma scanRow_qualifies:
  "(foundName (scanCells initialScan 0 row)
      \<and> (foundExtension (scanCells initialScan 0 row) \<or> foundDepartment (scanCells initialScan 0 row)))
   = qualifiesAsHeader row"
  by (simp add: scanCells_found initialScan_def qualifiesAsHeader_def)

lemma detectFrom_none:
  "\<forall>r \<in> set rows. \<not> qualifiesAsHeader r \<Longrightarrow> detectFrom i rows = defaultMapping"
  by (induction rows arbitrary: i) (simp_all add: Let_def scanRow_qualifies)

lemma detectFrom_first:
  "j < length rows \<Longrightarrow> qualifiesAsHeader (rows ! j) \<Longrightarrow> \<forall>k<j. \<not> qualifiesAsHeader (rows ! k) \<Longrightarrow>
     detectFrom i rows =
       \<lparr>headerRowIndex = int (i + j),
        columnMap =
          \<lparr>extensionIndex = firstMatchingColumn HEADER_TOKENS_extension (rows ! j),
           departmentIndex = firstMatchingColumn HEADER_TOKENS_department (rows ! j),
           titleIndex = firstMatchingColumn HEADER_TOKENS_title (rows ! j),
           nameIndex = firstMatchingColumn HEADER_TOKENS_name (rows ! j)\<rparr>\<rparr>"
proof (induction rows arbitrary: i j)
  case Nil
  then show ?case by simp
next
  case (Cons row rows)
  show ?case
  proof (cases j)
    case 0
    with Cons.prems show ?thesis
      by (simp add: Let_def scanRow_qualifies scanRow_map)
  next
    case (Suc j')
    from Cons.prems Suc have notq: "\<not> qualifiesAsHeader row" by auto
    have "detectFrom (Suc i) rows =
       \<lparr>headerRowIndex = int (Suc i + j'),
        columnMap =
          \<lparr>extensionIndex = firstMatchingColumn HEADER_TOKENS_extension (rows ! j'),
           departmentIndex = firstMatchingColumn HEADER_TOKENS_department (rows ! j'),
           titleIndex = firstMatchingColumn HEADER_TOKENS_title (rows ! j'),
           nameIndex = firstMatchingColumn HEADER_TOKENS_name (rows ! j')\<rparr>\<rparr>"
      using Cons.prems Suc by (intro Cons.IH) auto
    with notq Suc show ?thesis
      by (simp add: Let_def scanRow_qualifies)
  qed
qed

text \<open>
  Claim C1. Header detection returns the lowest-index row, among the first 20 rows, that
  matches the name dictionary and at least one of the extension and department
  dictionaries, and records for each of the four categories the first matching column
  of that row (\<open>-1\<close> when the row has none); when no row of the window qualifies it
  returns \<open>headerRowIndex = -1\<close> with the default columns extension 1, department 2,
  title 3, name 4.
\<close>

theorem detectHeaderMapping_first_qualifying_row:
  "(\<forall>i. i < length rawData \<and> i < 20 \<and> qualifiesAsHeader (rawData ! i)
         \<and> (\<forall>j<i. \<not> qualifiesAsHeader (rawData ! j))
       \<longrightarrow> detectHeaderMapping rawData =
             \<lparr>headerRowIndex = int i,
              columnMap =
                \<lparr>extensionIndex = firstMatchingColumn HEADER_TOKENS_extension (rawData ! i),
                 departmentIndex = firstMatchingColumn HEADER_TOKENS_department (rawData ! i),
                 titleIndex = firstMatchingColumn HEADER_TOKENS_title (rawData ! i),
                 nameIndex = firstMatchingColumn HEADER_TOKENS_name (rawData ! i)\<rparr>\<rparr>)
   \<and> ((\<forall>i. i < length rawData \<and> i < 20 \<longrightarrow> \<not> qualifiesAsHeader (rawData ! i))
       \<longrightarrow> detectHeaderMapping rawData =
             \<lparr>headerRowIndex = -1,
              columnMap = \<lparr>extensionIndex = 1, departmentIndex = 2, titleIndex = 3, nameIndex = 4\<rparr>\<rparr>)"
proof (intro conjI allI impI)
  fix i
  assume h: "i < length rawData \<and> i < 20 \<and> qualifiesAsHeader (rawData ! i)
         \<and> (\<forall>j<i. \<not> qualifiesAsHeader (rawData ! j))"
  let ?rows = "take (min (length rawData) HEADER_SCAN_ROWS) rawData"
  from h have "i < length ?rows" by (simp add: HEADER_SCAN_ROWS_def)
  moreover from h have "qualifiesAsHeader (?rows ! i)" by (simp add: HEADER_SCAN_ROWS_def)
  moreover from h have "\<forall>k<i. \<not> qualifiesAsHeader (?rows ! k)" by (simp add: HEADER_SCAN_ROWS_def)
  ultimately have "detectFrom 0 ?rows =
       \<lparr>headerRowIndex = int (0 + i),
        columnMap =
          \<lparr>extensionIndex = firstMatchingColumn HEADER_TOKENS_extension (?rows ! i),
           departmentIndex = firstMatchingColumn HEADER_TOKENS_department (?rows ! i),
           titleIndex = firstMatchingColumn HEADER_TOKENS_title (?rows ! i),
           nameIndex = firstMatchingColumn HEADER_TOKENS_name (?rows ! i)\<rparr>\<rparr>"
    by (rule detectFrom_first)
  with h show "detectHeaderMapping rawData =
             \<lparr>headerRowIndex = int i,
              columnMap =
                \<lparr>extensionIndex = firstMatchingColumn HEADER_TOKENS_extension (rawData ! i),
                 departmentIndex = firstMatchingColumn HEADER_TOKENS_department (rawData ! i),
                 titleIndex = firstMatchingColumn HEADER_TOKENS_title (rawData ! i),
                 nameIndex = firstMatchingColumn HEADER_TOKENS_name (rawData ! i)\<rparr>\<rparr>"
    by (simp add: detectHeaderMapping_def Let_def HEADER_SCAN_ROWS_def)
next
  assume h: "\<forall>i. i < length rawData \<and> i < 20 \<longrightarrow> \<not> qualifiesAsHeader (rawData ! i)"
  let ?rows = "take (min (length rawData) HEADER_SCAN_ROWS) rawData"
  have "\<forall>r \<in> set ?rows. \<not> qualifiesAsHeader r"
    using h by (auto simp: in_set_conv_nth HEADER_SCAN_ROWS_def)
  then have "detectFrom 0 ?rows = defaultMapping"
    by (rule detectFrom_none)
  then show "detectHeaderMapping rawData =
             \<lparr>headerRowIndex = -1,
              columnMap = \<lparr>extensionIndex = 1, departmentIndex = 2, titleIndex = 3, nameIndex = 4\<rparr>\<rparr>"
    by (simp add: detectHeaderMapping_def Let_def defaultMapping_def DEFAULT_extension_def
        DEFAULT_department_def DEFAULT_title_def DEFAULT_name_def)
qed

subsection \<open>Worked examples of header detection\<close>

lemmas header_tokens =
  HEADER_TOKENS_extension_def HEADER_TOKENS_department_def HEADER_TOKENS_title_def
  HEADER_TOKENS_name_def

lemma normal_forms:
  "normalizeText (normalizeCellValue CNull) = []"
  "normalizeText (normalizeCellValue (CStr ''Listado 2024'')) = ''listado 2024''"
  "normalizeText (normalizeCellValue (CStr ''Actualizado'')) = ''actualizado''"
  "normalizeText (normalizeCellValue (CStr ''APELLIDO Y NOMBRE'')) = ''apellido y nombre''"
  "normalizeText (normalizeCellValue (CStr ''SECTOR'')) = ''sector''"
  "normalizeText (normalizeCellValue (CStr ''INTERNO'')) = ''interno''"
  "normalizeText (normalizeCellValue (CStr ''Juan Perez'')) = ''juan perez''"
  "normalizeText (normalizeCellValue (CStr ''Ventas'')) = ''ventas''"
  "normalizeText (normalizeCellValue (CNum ''101'')) = ''101''"
  by code_simp+

lemma headerRow_qualifies: "qualifiesAsHeader headerRow"
  by (simp add: headerRow_def qualifiesAsHeader_def rowMatches_def cellMatches_def normal_forms
      header_tokens)

lemma headerRow_columns:
  "firstMatchingColumn HEADER_TOKENS_extension headerRow = 2"
  "firstMatchingColumn HEADER_TOKENS_department headerRow = 1"
  "firstMatchingColumn HEADER_TOKENS_title headerRow = -1"
  "firstMatchingColumn HEADER_TOKENS_name headerRow = 0"
  by (simp_all add: headerRow_def firstMatchingColumn_def rowMatches_def cellMatches_def
      normal_forms header_tokens sublist_Cons_right)

lemma preamble_rows:
  "\<not> qualifiesAsHeader [CStr ''Listado 2024'']"
  "\<not> qualifiesAsHeader [CNull, CNull]"
  "\<not> qualifiesAsHeader [CStr ''Actualizado'']"
  by (simp_all add: qualifiesAsHeader_def rowMatches_def cellMatches_def normal_forms
      header_tokens sublist_Cons_right)

lemma dataRow_not_header:
  "\<not> qualifiesAsHeader [CNull, CNum ''101'', CStr ''Ventas'', CNull, CStr ''Juan Perez'']"
  by (simp add: qualifiesAsHeader_def rowMatches_def cellMatches_def normal_forms
      header_tokens sublist_Cons_right)

lemma gridWithHeader_facts:
  "3 < length gridWithHeader" "gridWithHeader ! 3 = headerRow"
  "\<forall>j<3. \<not> qualifiesAsHeader (gridWithHeader ! j)"
proof -
  show "3 < length gridWithHeader" "gridWithHeader ! 3 = headerRow"
    by (simp_all add: gridWithHeader_def)
  show "\<forall>j<3. \<not> qualifiesAsHeader (gridWithHeader ! j)"
  proof (intro allI impI)
    fix j :: nat
    assume "j < 3"
    then consider "j = 0" | "j = 1" | "j = 2" by linarith
    then show "\<not> qualifiesAsHeader (gridWithHeader ! j)"
      by cases (simp_all add: gridWithHeader_def preamble_rows)
  qed
qed

lemma gridWithoutHeader_facts:
  "\<forall>i. i < length gridWithoutHeader \<and> i < 20 \<longrightarrow> \<not> qualifiesAsHeader (gridWithoutHeader ! i)"
proof (intro allI impI)
  fix i :: nat
  assume "i < length gridWithoutHeader \<and> i < 20"
  then have "i = 0" by (simp add: gridWithoutHeader_def)
  then show "\<not> qualifiesAsHeader (gridWithoutHeader ! i)"
    by (simp add: gridWithoutHeader_def dataRow_not_header)
qed

text \<open>
  The two examples of the specification: a grid whose row 3 holds \<open>APELLIDO Y NOMBRE\<close>,
  \<open>SECTOR\<close>, \<open>INTERNO\<close>, and a grid with no header token.
\<close>

theorem detectHeaderMapping_witness:
  "detectHeaderMapping gridWithHeader =
     \<lparr>headerRowIndex = 3,
      columnMap = \<lparr>extensionIndex = 2, departmentIndex = 1, titleIndex = -1, nameIndex = 0\<rparr>\<rparr>
   \<and> detectHeaderMapping gridWithoutHeader =
     \<lparr>headerRowIndex = -1,
      columnMap = \<lparr>extensionIndex = 1, departmentIndex = 2, titleIndex = 3, nameIndex = 4\<rparr>\<rparr>"
proof
  show "detectHeaderMapping gridWithHeader =
     \<lparr>headerRowIndex = 3,
      columnMap = \<lparr>extensionIndex = 2, departmentIndex = 1, titleIndex = -1, nameIndex = 0\<rparr>\<rparr>"
    using detectHeaderMapping_first_qualifying_row [of gridWithHeader, THEN conjunct1, THEN spec, of 3]
      gridWithHeader_facts headerRow_qualifies headerRow_columns
    by simp
next
  show "detectHeaderMapping gridWithoutHeader =
     \<lparr>headerRowIndex = -1,
      columnMap = \<lparr>extensionIndex = 1, departmentIndex = 2, titleIndex = 3, nameIndex = 4\<rparr>\<rparr>"
    using detectHeaderMapping_first_qualifying_row [of gridWithoutHeader, THEN conjunct2]
      gridWithoutHeader_facts
    by blast
qed

section \<open>Properties of the row extractor\<close>

lemma looksLikeHeader_qualifies: "looksLikeHeader row = qualifiesAsHeader row"
  by (simp add: looksLikeHeader_def qualifiesAsHeader_def rowMatches_def list_ex_iff
      matchesHeaderToken_cellMatches Let_def)

lemma normalizeText_Nil: "normalizeText [] = []"
  by (simp add: normalizeText_def toLowerCase_def trim_def)

lemma stop_tokens:
  "STOP_TOKEN_NORMALIZED = [''telefonos internos reserva'', ''reserva 6000'']"
  unfolding STOP_TOKEN_NORMALIZED_def by code_simp

lemma blank_normal_forms:
  "normalizeText (normalizeCellValue (CNum ''0'')) = ''0''"
  "normalizeText (normalizeCellValue (CNum ''NaN'')) = ''nan''"
  "normalizeText (normalizeCellValue (CBool False)) = ''false''"
  "normalizeText (normalizeCellValue (CStr [])) = []"
  by code_simp+

lemma sentinel_not_blank:
  assumes "sublist ''telefonos internos reserva'' (normalizeText (normalizeCellValue c))
           \<or> sublist ''reserva 6000'' (normalizeText (normalizeCellValue c))"
  shows "\<not> isBlankCell c"
proof
  assume "isBlankCell c"
  then consider "c = CNull" | "c = CStr []" | "c = CNum ''0''" | "c = CNum ''NaN''"
    | "c = CBool False"
    by (cases c) (auto simp: isBlankCell_def)
  then show False
    using assms
    by cases (simp_all add: normal_forms blank_normal_forms sublist_Cons_right)
qed

lemma hasSentinelCell_not_blank: "hasSentinelCell row \<Longrightarrow> \<not> list_all isBlankCell row"
proof -
  assume "hasSentinelCell row"
  then obtain c where c: "c \<in> set row"
    and s: "sublist ''telefonos internos reserva'' (normalizeText (normalizeCellValue c))
           \<or> sublist ''reserva 6000'' (normalizeText (normalizeCellValue c))"
    by (auto simp: hasSentinelCell_def)
  from s have "\<not> isBlankCell c" by (rule sentinel_not_blank)
  with c show ?thesis by (auto simp: list_all_iff)
qed

lemma sentinel_nonempty:
  "sublist ''telefonos internos reserva'' (normalizeText v) \<or> sublist ''reserva 6000'' (normalizeText v)
     \<Longrightarrow> v \<noteq> [] \<and> normalizeText v \<noteq> []"
  by (cases "v = []") (auto simp: normalizeText_Nil)

lemma shouldStopProcessing_sentinel:
  "shouldStopProcessing (map normalizeCellValue row) False False = hasSentinelCell row"
  using sentinel_nonempty
  by (auto simp: shouldStopProcessing_def hasSentinelCell_def list_ex_iff stop_tokens
      includesStr_def Let_def)

lemma processRow_stop:
  assumes "\<not> qualifiesAsHeader row" "hasNoName cm row" "hasNoNumericExtension cm row"
    "hasSentinelCell row"
  shows "processRow cm st row = st\<lparr>stopProcessing := True\<rparr>"
  using assms hasSentinelCell_not_blank [OF assms(4)]
  by (simp add: processRow_def looksLikeHeader_qualifies Let_def hasNoName_def
      hasNoNumericExtension_def shouldStopProcessing_sentinel)

lemma processRows_stopped: "stopProcessing st \<Longrightarrow> processRows cm st rows = st"
  by (cases rows) simp_all

lemma processRows_cut:
  assumes "\<And>st. processRow cm st r = st\<lparr>stopProcessing := True\<rparr>"
  shows "personnel (processRows cm st (before @ r # after)) = personnel (processRows cm st before)"
proof (induction before arbitrary: st)
  case Nil
  show ?case by (simp add: assms processRows_stopped)
next
  case (Cons b before)
  then show ?case by (simp add: processRows_stopped)
qed

text \<open>
  Claim C2, as amended. Let row \<open>i\<close> be a row the extractor visits (it lies at or after
  the first data row) that is not skipped as a repeated header row, has no name and no
  numeric-looking extension, and holds a cell whose normalized text contains one of the
  two sentinel phrases. Then the records extracted from the grid are exactly those
  extracted from the rows before row \<open>i\<close>: nothing is emitted for row \<open>i\<close> or for any
  later row.
\<close>

theorem stop_row_discards_the_rest:
  assumes "dataStartIndex (detectHeaderMapping rawData) \<le> i" and "i < length rawData"
    and "\<not> qualifiesAsHeader (rawData ! i)"
    and "hasNoName (columnMap (detectHeaderMapping rawData)) (rawData ! i)"
    and "hasNoNumericExtension (columnMap (detectHeaderMapping rawData)) (rawData ! i)"
    and "hasSentinelCell (rawData ! i)"
  shows "processExcelData rawData =
           personnel (processRows (columnMap (detectHeaderMapping rawData)) initialLoop
             (drop (dataStartIndex (detectHeaderMapping rawData)) (take i rawData)))"
proof -
  let ?h = "detectHeaderMapping rawData"
  let ?s = "dataStartIndex ?h"
  have split: "drop ?s rawData = drop ?s (take i rawData) @ rawData ! i # drop (Suc i) rawData"
  proof -
    have "rawData = take i rawData @ rawData ! i # drop (Suc i) rawData"
      using assms(2) by (rule id_take_nth_drop)
    then have "drop ?s rawData = drop ?s (take i rawData @ rawData ! i # drop (Suc i) rawData)"
      by simp
    also have "\<dots> = drop ?s (take i rawData) @ rawData ! i # drop (Suc i) rawData"
      using assms(1,2) by simp
    finally show ?thesis .
  qed
  have "\<And>st. processRow (columnMap ?h) st (rawData ! i) = st\<lparr>stopProcessing := True\<rparr>"
    using assms(3-6) by (rule processRow_stop)
  then have "personnel (processRows (columnMap ?h) initialLoop
                 (drop ?s (take i rawData) @ rawData ! i # drop (Suc i) rawData))
             = personnel (processRows (columnMap ?h) initialLoop (drop ?s (take i rawData)))"
    by (rule processRows_cut)
  then show ?thesis
    by (simp add: processExcelData_def Let_def split [symmetric])
qed

subsection \<open>Worked examples of the stop row\<close>

lemma detectHeaderMapping_row0:
  "rawData = row # rest \<Longrightarrow> qualifiesAsHeader row \<Longrightarrow>
     detectHeaderMapping rawData =
       \<lparr>headerRowIndex = 0,
        columnMap =
          \<lparr>extensionIndex = firstMatchingColumn HEADER_TOKENS_extension row,
           departmentIndex = firstMatchingColumn HEADER_TOKENS_department row,
           titleIndex = firstMatchingColumn HEADER_TOKENS_title row,
           nameIndex = firstMatchingColumn HEADER_TOKENS_name row\<rparr>\<rparr>"
  using detectFrom_first [of 0 "take (min (length rawData) HEADER_SCAN_ROWS) rawData" 0]
  by (simp add: detectHeaderMapping_def Let_def HEADER_SCAN_ROWS_def)

lemma more_normal_forms:
  "normalizeText (normalizeCellValue (CStr ''101'')) = ''101''"
  "normalizeText (normalizeCellValue (CStr ''TELEFONOS INTERNOS RESERVA'')) = ''telefonos internos reserva''"
  "normalizeText (normalizeCellValue (CStr ''contacto'')) = ''contacto''"
  by code_simp+

lemma headerRowFive_qualifies: "qualifiesAsHeader headerRowFive"
  by (simp add: headerRowFive_def qualifiesAsHeader_def rowMatches_def cellMatches_def normal_forms
      header_tokens)

lemma headerRowFive_columns:
  "firstMatchingColumn HEADER_TOKENS_extension headerRowFive = 1"
  "firstMatchingColumn HEADER_TOKENS_department headerRowFive = 2"
  "firstMatchingColumn HEADER_TOKENS_title headerRowFive = -1"
  "firstMatchingColumn HEADER_TOKENS_name headerRowFive = 4"
  by (simp_all add: headerRowFive_def firstMatchingColumn_def rowMatches_def cellMatches_def
      normal_forms header_tokens sublist_Cons_right)

lemma detect_example:
  "detectHeaderMapping (headerRowFive # rest) = \<lparr>headerRowIndex = 0, columnMap = columnsOfExample\<rparr>"
  using detectHeaderMapping_row0 [OF refl headerRowFive_qualifies, of rest]
  by (simp add: headerRowFive_columns columnsOfExample_def)

lemma dataStart_zero: "dataStartIndex \<lparr>headerRowIndex = 0, columnMap = cm\<rparr> = Suc 0"
  by (simp add: dataStartIndex_def)

lemma dataStart_example: "dataStartIndex (detectHeaderMapping (headerRowFive # rest)) = Suc 0"
  by (simp add: detect_example dataStart_zero)

lemma rowJuan_cells:
  "extensionRawOf columnsOfExample rowJuan = ''101''"
  "nameRawOf columnsOfExample rowJuan = ''Juan Perez''"
  "departmentRawOf columnsOfExample rowJuan = ''Ventas''"
  by code_simp+

lemma juan_values:
  "normalizeExtensionValue ''101'' = ''101''"
  "isNumericExtension ''101''"
  "splitNames ''Juan Perez'' = [''Juan Perez'']"
  "normalizeText ''Juan Perez'' = ''juan perez''"
  "normalizeExtensionSearch ''101'' = ''101''"
  "string_of_nat (Suc 0) = ''1''"
  "toLowerCase ''Juan Perez'' = ''juan perez''"
  "trim ''Juan Perez'' = ''Juan Perez''"
  by code_simp+

lemma keepName_juan: "keepName ''Juan Perez''"
  by (simp add: keepName_def juan_values includesStr_def sublist_Cons_right)

lemma rowJuan_not_header: "\<not> qualifiesAsHeader rowJuan"
  by (simp add: rowJuan_def qualifiesAsHeader_def rowMatches_def cellMatches_def normal_forms
      more_normal_forms header_tokens sublist_Cons_right)

lemma rowJuan_not_blank: "\<not> list_all isBlankCell rowJuan"
  by (simp add: rowJuan_def isBlankCell_def)

lemma processRow_rowJuan:
  "processRow columnsOfExample st rowJuan = pushNames st ''Ventas'' ''101'' [''Juan Perez'']"
  by (simp add: processRow_def rowJuan_not_blank looksLikeHeader_qualifies rowJuan_not_header
      rowJuan_cells juan_values keepName_juan shouldStopProcessing_def Let_def)

lemma extract_rowJuan:
  "personnel (processRows columnsOfExample initialLoop [rowJuan]) = [recordJuan]"
  by (simp add: processRow_rowJuan initialLoop_def juan_values recordJuan_def)


lemma sentinel_facts:
  "\<not> qualifiesAsHeader sentinelRow"
  "hasNoName columnsOfExample sentinelRow"
  "hasNoNumericExtension columnsOfExample sentinelRow"
  "hasSentinelCell sentinelRow"
proof -
  show "\<not> qualifiesAsHeader sentinelRow"
    by (simp add: sentinelRow_def qualifiesAsHeader_def rowMatches_def cellMatches_def
        more_normal_forms header_tokens sublist_Cons_right)
  show "hasNoName columnsOfExample sentinelRow"
    unfolding hasNoName_def by code_simp
  have "extensionRawOf columnsOfExample sentinelRow = ''TELEFONOS INTERNOS RESERVA''"
    by code_simp
  moreover have "\<not> isNumericExtension ''TELEFONOS INTERNOS RESERVA''"
    by (simp add: isNumericExtension_def removeSpaces_def allDigits_def isDigit_def isSpace_def)
  ultimately show "hasNoNumericExtension columnsOfExample sentinelRow"
    by (simp add: hasNoNumericExtension_def)
  show "hasSentinelCell sentinelRow"
    by (simp add: hasSentinelCell_def sentinelRow_def more_normal_forms)
qed

text \<open>
  In \<open>gridWithStop\<close> the header is row 0, row 1 is a person, row 2 is the sentinel row
  and row 3 is another person: only the person of row 1 is extracted.
\<close>

theorem stop_row_witness:
  "processExcelData gridWithStop = [recordJuan]"
proof -
  have h: "detectHeaderMapping gridWithStop = \<lparr>headerRowIndex = 0, columnMap = columnsOfExample\<rparr>"
    and s: "dataStartIndex (detectHeaderMapping gridWithStop) = Suc 0"
    by (simp_all add: gridWithStop_def detect_example dataStart_zero)
  have r: "gridWithStop ! 2 = sentinelRow" and l: "2 < length gridWithStop"
    by (simp_all add: gridWithStop_def)
  have "processExcelData gridWithStop =
           personnel (processRows (columnMap (detectHeaderMapping gridWithStop)) initialLoop
             (drop (dataStartIndex (detectHeaderMapping gridWithStop)) (take 2 gridWithStop)))"
    by (rule stop_row_discards_the_rest) (simp_all add: h dataStart_zero r l sentinel_facts)
  also have "drop (dataStartIndex (detectHeaderMapping gridWithStop)) (take 2 gridWithStop) = [rowJuan]"
    by (simp add: s) (simp add: gridWithStop_def)
  finally show ?thesis
    by (simp only: h HeaderMapping.simps extract_rowJuan)
qed

lemma sentinelRowWithContact_facts:
  "qualifiesAsHeader sentinelRowWithContact"
  "hasNoName columnsOfExample sentinelRowWithContact"
  "hasNoNumericExtension columnsOfExample sentinelRowWithContact"
  "hasSentinelCell sentinelRowWithContact"
proof -
  show "qualifiesAsHeader sentinelRowWithContact"
    by (simp add: sentinelRowWithContact_def qualifiesAsHeader_def rowMatches_def cellMatches_def
        more_normal_forms normal_forms header_tokens sublist_Cons_right)
  show "hasNoName columnsOfExample sentinelRowWithContact"
    unfolding hasNoName_def by code_simp
  have "extensionRawOf columnsOfExample sentinelRowWithContact = ''TELEFONOS INTERNOS RESERVA''"
    by code_simp
  moreover have "\<not> isNumericExtension ''TELEFONOS INTERNOS RESERVA''"
    by (simp add: isNumericExtension_def removeSpaces_def allDigits_def isDigit_def isSpace_def)
  ultimately show "hasNoNumericExtension columnsOfExample sentinelRowWithContact"
    by (simp add: hasNoNumericExtension_def)
  show "hasSentinelCell sentinelRowWithContact"
    by (simp add: hasSentinelCell_def sentinelRowWithContact_def more_normal_forms)
qed

lemma processRow_header_like: "qualifiesAsHeader row \<Longrightarrow> processRow cm st row = st"
  by (simp add: processRow_def looksLikeHeader_qualifies)

lemma extract_gridSkippedSentinel: "processExcelData gridSkippedSentinel = [recordJuan]"
proof -
  have "processRows columnsOfExample initialLoop [sentinelRowWithContact, rowJuan]
          = processRows columnsOfExample initialLoop [rowJuan]"
    by (simp add: processRow_header_like [OF sentinelRowWithContact_facts(1)] initialLoop_def)
  then have "personnel (processRows columnsOfExample initialLoop [sentinelRowWithContact, rowJuan])
          = [recordJuan]"
    by (simp only: extract_rowJuan)
  then show ?thesis
    by (simp add: processExcelData_def Let_def gridSkippedSentinel_def detect_example
        dataStart_zero del: processRows.simps)
qed

text \<open>
  Claim C2 as stated fails. In \<open>gridSkippedSentinel\<close> row 1 is visited, has no name and
  no numeric-looking extension and holds the sentinel phrase; it also holds the name
  token \<open>contacto\<close> in a column that is not a name column, so the extractor skips it as a
  repeated header row before it tests the stop condition, and the person of row 2 is
  extracted.
\<close>

theorem stop_row_counterexample:
  "dataStartIndex (detectHeaderMapping gridSkippedSentinel) = 1
   \<and> gridSkippedSentinel ! 1 = sentinelRowWithContact
   \<and> hasNoName (columnMap (detectHeaderMapping gridSkippedSentinel)) sentinelRowWithContact
   \<and> hasNoNumericExtension (columnMap (detectHeaderMapping gridSkippedSentinel)) sentinelRowWithContact
   \<and> hasSentinelCell sentinelRowWithContact
   \<and> gridSkippedSentinel ! 2 = rowJuan
   \<and> processExcelData gridSkippedSentinel = [recordJuan]"
proof -
  have h: "detectHeaderMapping gridSkippedSentinel
             = \<lparr>headerRowIndex = 0, columnMap = columnsOfExample\<rparr>"
    by (simp add: gridSkippedSentinel_def detect_example)
  have rows: "gridSkippedSentinel ! 1 = sentinelRowWithContact" "gridSkippedSentinel ! 2 = rowJuan"
    by (simp_all add: gridSkippedSentinel_def)
  show ?thesis
    using rows
    by (simp add: h dataStart_zero extract_gridSkippedSentinel sentinelRowWithContact_facts)
qed

subsection \<open>The derived search fields of a record\<close>

lemma personnel_processRows_stopped:
  "stopProcessing st \<Longrightarrow> personnel (processRows cm st rows) = personnel st"
  by (simp add: processRows_stopped)

lemma na_no_digit: "\<not> list_ex isDigit ''N/A''"
  by (simp add: isDigit_def)
















section \<open>Properties of the search engine\<close>

lemma personOf_withSearch: "personOf (withSearch p t s) = p"
  by (simp add: personOf_def withSearch_def Personnel.defs SearchResult.defs)

lemma filteredResults_persons:
  "map personOf (filteredResults normalizer query allPersonnel) =
     (if trim query = [] \<or> length query < 2 then []
      else if allDigits (removeSpaces (normalizer (trim query)))
      then filter (\<lambda>person. includesStr (searchableExtension person)
                                (removeSpaces (normalizer (trim query)))) allPersonnel
      else nameDepartmentSearch normalizer (normalizer (trim query))
             (searchTermsOf (normalizer (trim query))) allPersonnel)"
  by (simp add: filteredResults_def Let_def o_def personOf_withSearch)

lemma length_trim_le: "length (trim s) \<le> length s"
proof -
  have "length (trim s) \<le> length (dropWhile isSpace s)"
    unfolding trim_def using length_dropWhile_le [of isSpace "rev (dropWhile isSpace s)"] by simp
  also have "\<dots> \<le> length s" by (rule length_dropWhile_le)
  finally show ?thesis .
qed

lemma digit_not_space: "isDigit c \<Longrightarrow> \<not> isSpace c"
  by (auto simp: isDigit_def isSpace_def)

lemma removeSpaces_digitsOnly:
  "list_all (\<lambda>c. isDigit c \<or> isSpace c) s \<Longrightarrow> removeSpaces s = digitsOnly s"
  unfolding removeSpaces_def digitsOnly_def
  by (rule filter_cong) (auto simp: list_all_iff dest: digit_not_space)

text \<open>
  Claim C4, as amended. For a query whose trimmed form has at least two characters and
  whose normalized form consists of digits and whitespace only, with at least one digit,
  the search returns exactly the records whose \<open>searchableExtension\<close> contains the
  digits-only variant of the normalized query, in directory order; names and
  departments play no part in the selection.
\<close>

theorem numeric_query_is_extension_search:
  assumes "length (trim query) \<ge> 2"
    and "list_all (\<lambda>c. isDigit c \<or> isSpace c) (normalizer (trim query))"
    and "digitsOnly (normalizer (trim query)) \<noteq> []"
  shows "map personOf (filteredResults normalizer query allPersonnel) =
           filter (\<lambda>person. sublist (digitsOnly (normalizer (trim query)))
                                 (searchableExtension person)) allPersonnel"
proof -
  from assms(1) have "trim query \<noteq> []" by auto
  moreover from assms(1) length_trim_le [of query] have "\<not> length query < 2" by simp
  moreover have same: "removeSpaces (normalizer (trim query)) = digitsOnly (normalizer (trim query))"
    using assms(2) by (rule removeSpaces_digitsOnly)
  moreover from assms(3) have "allDigits (digitsOnly (normalizer (trim query)))"
    by (simp add: allDigits_def digitsOnly_def list_all_iff)
  ultimately show ?thesis
    by (simp add: filteredResults_persons includesStr_def)
qed


lemma dedupById_filter:
  "dedupById (filter (\<lambda>q. P (idStr q)) xs) = filter (\<lambda>q. P (idStr q)) (dedupById xs)"
proof (induction xs)
  case Nil
  show ?case by simp
next
  case (Cons x xs)
  show ?case
  proof (cases "P (idStr x)")
    case True
    have "filter (\<lambda>q. idStr q \<noteq> idStr x) (filter (\<lambda>q. P (idStr q)) (dedupById xs))
            = filter (\<lambda>q. P (idStr q)) (filter (\<lambda>q. idStr q \<noteq> idStr x) (dedupById xs))"
      by (simp add: conj_commute)
    then show ?thesis using True Cons.IH by simp
  next
    case False
    then have "\<And>q. P (idStr q) \<Longrightarrow> idStr q \<noteq> idStr x" by auto
    then have "filter (\<lambda>q. P (idStr q)) (filter (\<lambda>q. idStr q \<noteq> idStr x) (dedupById xs))
            = filter (\<lambda>q. P (idStr q)) (dedupById xs)"
      by (auto intro: filter_cong)
    then show ?thesis using False Cons.IH by simp
  qed
qed

lemma addResults_fst:
  "fst (addResults (rs, seen) items)
     = rs @ dedupById (filter (\<lambda>q. idStr q \<notin> set seen) items)"
proof (induction items arbitrary: rs seen)
  case Nil
  show ?case by simp
next
  case (Cons item items)
  show ?case
  proof (cases "idStr item \<in> set seen")
    case True
    then show ?thesis using Cons.IH [of rs seen] by simp
  next
    case False
    have "dedupById (filter (\<lambda>q. idStr q \<notin> set (idStr item # seen)) items)
            = dedupById (filter (\<lambda>q. idStr q \<noteq> idStr item)
                (filter (\<lambda>q. idStr q \<notin> set seen) items))"
      by (simp add: conj_commute)
    also have "\<dots> = filter (\<lambda>q. idStr q \<noteq> idStr item)
                (dedupById (filter (\<lambda>q. idStr q \<notin> set seen) items))"
      by (rule dedupById_filter [where P = "\<lambda>i. i \<noteq> idStr item"])
    finally show ?thesis using False Cons.IH [of "rs @ [item]" "idStr item # seen"] by simp
  qed
qed

lemma addResults_snd:
  "set (snd (addResults (rs, seen) items)) = set seen \<union> idStr ` set items"
  by (induction items arbitrary: rs seen) auto

lemma dedupById_append:
  "dedupById (xs @ ys) = dedupById xs @ dedupById (filter (\<lambda>q. idStr q \<notin> idStr ` set xs) ys)"
proof (induction xs arbitrary: ys)
  case Nil
  show ?case by simp
next
  case (Cons x xs)
  have "filter (\<lambda>q. idStr q \<noteq> idStr x)
          (dedupById (filter (\<lambda>q. idStr q \<notin> idStr ` set xs) ys))
        = dedupById (filter (\<lambda>q. idStr q \<noteq> idStr x)
            (filter (\<lambda>q. idStr q \<notin> idStr ` set xs) ys))"
    by (rule dedupById_filter [where P = "\<lambda>i. i \<noteq> idStr x", symmetric])
  also have "\<dots> = dedupById (filter (\<lambda>q. idStr q \<notin> idStr ` set (x # xs)) ys)"
    by (simp add: conj_commute)
  finally have tail: "filter (\<lambda>q. idStr q \<noteq> idStr x)
          (dedupById (filter (\<lambda>q. idStr q \<notin> idStr ` set xs) ys))
        = dedupById (filter (\<lambda>q. idStr q \<notin> idStr ` set (x # xs)) ys)" .
  show ?case
    using Cons.IH [of ys] tail by (simp del: set_simps)
qed

lemma addResults_twice:
  "fst (addResults (addResults ([], []) xs) ys) = dedupById (xs @ ys)"
proof -
  obtain rs seen where st: "addResults ([], []) xs = (rs, seen)"
    by (cases "addResults ([], []) xs")
  have rs: "rs = dedupById xs"
    using addResults_fst [of "[]" "[]" xs] st by simp
  have seen: "set seen = idStr ` set xs"
    using addResults_snd [of "[]" "[]" xs] st by simp
  show ?thesis
    by (simp add: st addResults_fst rs seen dedupById_append)
qed

lemma addResults_once: "fst (addResults ([], []) xs) = dedupById xs"
  using addResults_fst [of "[]" "[]" xs] by simp


lemma exactMatches_spec: "exactMatches terms allPersonnel = filter (isExactMatch terms) allPersonnel"
  unfolding exactMatches_def
  by (rule filter_cong)
     (auto simp: isExactMatch_def list_all_iff list_ex_iff startsWith_def)

lemma expansion_spec:
  "filter (\<lambda>person. extension person \<in> extension ` set exact) allPersonnel
     = filter (sharesExtension exact) allPersonnel"
  by (rule filter_cong) (auto simp: sharesExtension_def)

lemma nameDepartmentSearch_exact:
  assumes "exactMatches terms allPersonnel \<noteq> []"
  shows "nameDepartmentSearch normalizer nq terms allPersonnel =
     dedupById
       (filter (sharesExtension (exactMatches terms allPersonnel)) allPersonnel
        @ (if length terms = 1 then departmentMatches normalizer nq allPersonnel else []))"
proof (cases "length (departmentMatches normalizer nq allPersonnel) > 0 \<and> length terms = 1")
  case True
  then show ?thesis using assms
    by (simp add: nameDepartmentSearch_def Let_def addResults_twice expansion_spec)
next
  case False
  then have "(if length terms = 1 then departmentMatches normalizer nq allPersonnel else []) = []"
    by auto
  then show ?thesis using assms False
    by (auto simp add: nameDepartmentSearch_def Let_def addResults_once expansion_spec)
qed

lemma nameDepartmentSearch_exact_only:
  assumes "exactMatches terms allPersonnel \<noteq> []"
    and "length terms \<noteq> 1 \<or> departmentMatches normalizer nq allPersonnel = []"
  shows "nameDepartmentSearch normalizer nq terms allPersonnel =
     dedupById (filter (sharesExtension (exactMatches terms allPersonnel)) allPersonnel)"
  using assms by (auto simp: nameDepartmentSearch_exact)


lemma perez_values:
  "trim ''perez'' = ''perez''"
  "normalizeText ''perez'' = ''perez''"
  "searchTermsOf ''perez'' = [''perez'']"
  "removeSpaces ''perez'' = ''perez''"
  "split ''juan perez'' CHR '' '' = [''juan'', ''perez'']"
  "split ''ana gomez'' CHR '' '' = [''ana'', ''gomez'']"
  "normalizeApellido normalizeText ''Juan Perez'' = ''juan''"
  "normalizeApellido normalizeText ''Ana Gomez'' = ''ana''"
  by code_simp+

lemma perez_not_numeric: "\<not> allDigits ''perez''"
  by (simp add: allDigits_def isDigit_def)

lemma perez_exact:
  "isExactMatch [''perez''] (juanPerez i d)" "\<not> isExactMatch [''perez''] (anaGomez i d)"
  by (simp_all add: isExactMatch_def juanPerez_def anaGomez_def person_def perez_values)

lemma perez_scores:
  "computeSearchScore normalizeText (juanPerez i d) ''perez'' [''perez''] = 2"
  "computeSearchScore normalizeText (anaGomez i d) ''perez'' [''perez''] = 0"
  by (simp_all add: computeSearchScore_def juanPerez_def anaGomez_def person_def perez_values
      startsWith_def includesStr_def sublist_Cons_right)

lemma dedupById_sublist_again:
  "set ys \<subseteq> set xs \<Longrightarrow> dedupById (xs @ ys) = dedupById xs"
proof -
  assume "set ys \<subseteq> set xs"
  then have "filter (\<lambda>q. idStr q \<notin> idStr ` set xs) ys = []"
    by (auto simp: filter_empty_conv)
  then show ?thesis by (simp add: dedupById_append)
qed

lemma perez_persons:
  assumes "i1 \<noteq> i2"
  shows "map personOf (filteredResults normalizeText ''perez'' [juanPerez i1 d1, anaGomez i2 d2])
           = [juanPerez i1 d1, anaGomez i2 d2]"
proof -
  let ?all = "[juanPerez i1 d1, anaGomez i2 d2]"
  have ex: "exactMatches [''perez''] ?all = [juanPerez i1 d1]"
    by (simp add: exactMatches_spec perez_exact)
  have sh: "filter (sharesExtension [juanPerez i1 d1]) ?all = ?all"
    by (simp add: sharesExtension_def juanPerez_def anaGomez_def person_def)
  have sub: "set (if length [''perez''] = 1 then departmentMatches normalizeText ''perez'' ?all else [])
               \<subseteq> set ?all"
    by (auto simp: departmentMatches_def)
  have "nameDepartmentSearch normalizeText ''perez'' [''perez''] ?all = dedupById ?all"
    using nameDepartmentSearch_exact [of "[''perez'']" ?all normalizeText "''perez''"]
      dedupById_sublist_again [OF sub]
    by (simp only: ex sh) simp
  moreover have "dedupById ?all = ?all"
    using assms by (simp add: juanPerez_def anaGomez_def person_def)
  ultimately show ?thesis
    by (simp add: filteredResults_persons perez_values perez_not_numeric)
qed

lemma perez_results:
  assumes "i1 \<noteq> i2"
  shows "filteredResults normalizeText ''perez'' [juanPerez i1 d1, anaGomez i2 d2]
           = [withSearch (juanPerez i1 d1) [''perez''] 2, withSearch (anaGomez i2 d2) [''perez''] 0]"
proof -
  let ?all = "[juanPerez i1 d1, anaGomez i2 d2]"
  have "nameDepartmentSearch normalizeText ''perez'' [''perez''] ?all = ?all"
    using perez_persons [OF assms, of d1 d2]
    by (simp add: filteredResults_persons perez_values perez_not_numeric)
  then show ?thesis
    by (simp add: filteredResults_def Let_def perez_values perez_not_numeric perez_scores)
qed


text \<open>
  Claim C3, as amended. In the name and department search, when some record is an exact
  match, the result is the records that have the extension of an exact match, followed,
  when the query has exactly one term, by the records whose normalized department
  contains the normalized query, the whole de-duplicated by id in first-seen order. In
  particular, over the two records Juan Perez and Ana Gomez at extension 101, with
  different ids and whatever their departments, the query \<open>perez\<close> returns both, Juan
  Perez with score 2 and Ana Gomez with score 0.
\<close>

theorem name_search_expands_by_extension:
  "(trim query \<noteq> [] \<and> 2 \<le> length query
      \<and> \<not> allDigits (removeSpaces (normalizer (trim query)))
      \<and> filter (isExactMatch (searchTermsOf (normalizer (trim query)))) allPersonnel \<noteq> []
    \<longrightarrow> map personOf (filteredResults normalizer query allPersonnel) =
          dedupById
            (filter (sharesExtension
                       (filter (isExactMatch (searchTermsOf (normalizer (trim query)))) allPersonnel))
               allPersonnel
             @ (if length (searchTermsOf (normalizer (trim query))) = 1
                then filter (\<lambda>p. sublist (normalizer (trim query)) (normalizer (department p)))
                       allPersonnel
                else [])))
   \<and> (i1 \<noteq> i2
    \<longrightarrow> filteredResults normalizeText ''perez'' [juanPerez i1 d1, anaGomez i2 d2] =
          [withSearch (juanPerez i1 d1) [''perez''] 2, withSearch (anaGomez i2 d2) [''perez''] 0])"
proof (intro conjI impI)
  assume h: "trim query \<noteq> [] \<and> 2 \<le> length query
      \<and> \<not> allDigits (removeSpaces (normalizer (trim query)))
      \<and> filter (isExactMatch (searchTermsOf (normalizer (trim query)))) allPersonnel \<noteq> []"
  then have "exactMatches (searchTermsOf (normalizer (trim query))) allPersonnel \<noteq> []"
    by (simp add: exactMatches_spec)
  from nameDepartmentSearch_exact [OF this, of normalizer "normalizer (trim query)"] h
  show "map personOf (filteredResults normalizer query allPersonnel) =
          dedupById
            (filter (sharesExtension
                       (filter (isExactMatch (searchTermsOf (normalizer (trim query)))) allPersonnel))
               allPersonnel
             @ (if length (searchTermsOf (normalizer (trim query))) = 1
                then filter (\<lambda>p. sublist (normalizer (trim query)) (normalizer (department p)))
                       allPersonnel
                else []))"
    by (simp add: filteredResults_persons exactMatches_spec departmentMatches_def includesStr_def)
next
  assume "i1 \<noteq> i2"
  then show "filteredResults normalizeText ''perez'' [juanPerez i1 d1, anaGomez i2 d2] =
          [withSearch (juanPerez i1 d1) [''perez''] 2, withSearch (anaGomez i2 d2) [''perez''] 0]"
    by (rule perez_results)
qed

lemma ventas_values:
  "trim ''ventas'' = ''ventas''"
  "normalizeText ''ventas'' = ''ventas''"
  "searchTermsOf ''ventas'' = [''ventas'']"
  "removeSpaces ''ventas'' = ''ventas''"
  "split ''ventas lopez'' CHR '' '' = [''ventas'', ''lopez'']"
  "normalizeText ''Compras'' = ''compras''"
  "normalizeText ''Ventas'' = ''ventas''"
  by code_simp+

lemma ventas_not_numeric: "\<not> allDigits ''ventas''"
  by (simp add: allDigits_def isDigit_def)

lemma ventas_preds:
  "isExactMatch [''ventas''] ventasLopez"
  "\<not> isExactMatch [''ventas''] anaOfVentas"
  "sharesExtension [ventasLopez] ventasLopez"
  "\<not> sharesExtension [ventasLopez] anaOfVentas"
  "\<not> sublist ''ventas'' (normalizeText (department ventasLopez))"
  "sublist ''ventas'' (normalizeText (department anaOfVentas))"
  "idStr ventasLopez = ''1''"
  "idStr anaOfVentas = ''2''"
  by (simp_all add: isExactMatch_def sharesExtension_def ventasLopez_def anaOfVentas_def
      person_def ventas_values perez_values sublist_Cons_right)

lemma ventas_search:
  "map personOf (filteredResults normalizeText ''ventas'' [ventasLopez, anaOfVentas])
     = [ventasLopez, anaOfVentas]"
proof -
  have "exactMatches [''ventas''] [ventasLopez, anaOfVentas] \<noteq> []"
    by (simp add: exactMatches_spec ventas_preds)
  from nameDepartmentSearch_exact [OF this, of normalizeText "''ventas''"]
  show ?thesis
    by (simp add: filteredResults_persons ventas_values ventas_not_numeric exactMatches_spec
        departmentMatches_def includesStr_def ventas_preds)
qed

theorem name_search_witness:
  "map personOf (filteredResults normalizeText ''ventas'' [ventasLopez, anaOfVentas])
     = [ventasLopez, anaOfVentas]
   \<and> filteredResults normalizeText ''perez'' [juanPerez ''1'' ''Ventas'', anaGomez ''2'' ''Compras'']
     = [withSearch (juanPerez ''1'' ''Ventas'') [''perez''] 2,
        withSearch (anaGomez ''2'' ''Compras'') [''perez''] 0]"
proof
  have two: "2 \<le> length ''ventas''" by simp
  show "map personOf (filteredResults normalizeText ''ventas'' [ventasLopez, anaOfVentas])
     = [ventasLopez, anaOfVentas]"
    using name_search_expands_by_extension
      [of "''ventas''" normalizeText "[ventasLopez, anaOfVentas]", THEN conjunct1] two
    by (simp add: ventas_values ventas_not_numeric ventas_preds)
next
  have "''1'' \<noteq> ''2''" by simp
  then show "filteredResults normalizeText ''perez'' [juanPerez ''1'' ''Ventas'', anaGomez ''2'' ''Compras'']
     = [withSearch (juanPerez ''1'' ''Ventas'') [''perez''] 2,
        withSearch (anaGomez ''2'' ''Compras'') [''perez''] 0]"
    using name_search_expands_by_extension
      [of _ _ _ "''1''" "''2''" "''Ventas''" "''Compras''", THEN conjunct2]
    by blast
qed

text \<open>
  Claim C3 as stated fails. For the one-term query \<open>ventas\<close> the only exact match is
  Ventas Lopez at extension 101, and the only record at that extension is Ventas Lopez;
  the search also returns Ana Gomez of extension 102, whose department is Ventas.
\<close>

theorem name_search_counterexample:
  "filter (isExactMatch (searchTermsOf (normalizeText (trim ''ventas'')))) [ventasLopez, anaOfVentas]
     = [ventasLopez]
   \<and> dedupById (filter (sharesExtension [ventasLopez]) [ventasLopez, anaOfVentas]) = [ventasLopez]
   \<and> map personOf (filteredResults normalizeText ''ventas'' [ventasLopez, anaOfVentas])
     = [ventasLopez, anaOfVentas]
   \<and> anaOfVentas \<noteq> ventasLopez"
  by (simp add: ventas_values ventas_preds ventas_search)
     (simp add: ventasLopez_def anaOfVentas_def person_def)


lemma query101_values:
  "trim ''101'' = ''101''"
  "normalizeText ''101'' = ''101''"
  "trim ''10 1'' = ''10 1''"
  "normalizeText ''10 1'' = ''10 1''"
  "digitsOnly ''101'' = ''101''"
  "digitsOnly ''10 1'' = ''101''"
  by code_simp+

theorem numeric_query_witness:
  "map personOf (filteredResults normalizeText ''101''
       [juanPerez ''1'' ''Ventas'', anaGomez ''2'' ''Compras''])
     = [juanPerez ''1'' ''Ventas'', anaGomez ''2'' ''Compras'']
   \<and> map personOf (filteredResults normalizeText ''10 1''
       [juanPerez ''1'' ''Ventas'', anaOfVentas])
     = [juanPerez ''1'' ''Ventas'']"
proof
  have "2 \<le> length (trim ''101'')"
    and "list_all (\<lambda>c. isDigit c \<or> isSpace c) (normalizeText (trim ''101''))"
    and "digitsOnly (normalizeText (trim ''101'')) \<noteq> []"
    by (simp_all add: query101_values isDigit_def)
  from numeric_query_is_extension_search
    [of "''101''" normalizeText "[juanPerez ''1'' ''Ventas'', anaGomez ''2'' ''Compras'']", OF this]
  show "map personOf (filteredResults normalizeText ''101''
       [juanPerez ''1'' ''Ventas'', anaGomez ''2'' ''Compras''])
     = [juanPerez ''1'' ''Ventas'', anaGomez ''2'' ''Compras'']"
    by (simp add: query101_values juanPerez_def anaGomez_def person_def)
next
  have "2 \<le> length (trim ''10 1'')"
    and "list_all (\<lambda>c. isDigit c \<or> isSpace c) (normalizeText (trim ''10 1''))"
    and "digitsOnly (normalizeText (trim ''10 1'')) \<noteq> []"
    by (simp_all add: query101_values isDigit_def isSpace_def)
  from numeric_query_is_extension_search
    [of "''10 1''" normalizeText "[juanPerez ''1'' ''Ventas'', anaOfVentas]", OF this]
  show "map personOf (filteredResults normalizeText ''10 1''
       [juanPerez ''1'' ''Ventas'', anaOfVentas])
     = [juanPerez ''1'' ''Ventas'']"
    by (simp add: query101_values juanPerez_def anaOfVentas_def person_def sublist_Cons_right)
qed

lemma query_int101_values:
  "trim ''int 101'' = ''int 101''"
  "normalizeText ''int 101'' = ''int 101''"
  "searchTermsOf ''int 101'' = [''int'', ''101'']"
  "removeSpaces ''int 101'' = ''int101''"
  "digitsOnly ''int 101'' = ''101''"
  by code_simp+

lemma query_int101_preds:
  "\<not> allDigits ''int101''"
  "\<not> isExactMatch [''int'', ''101''] (juanPerez i d)"
  "\<not> includesStr (searchableName (juanPerez i d)) ''int''"
  "searchableExtension (juanPerez i d) = ''101''"
  by (simp_all add: allDigits_def isDigit_def isExactMatch_def juanPerez_def person_def
      perez_values includesStr_def sublist_Cons_right)

text \<open>
  Claim C4 as stated fails. The query \<open>int 101\<close> has seven characters and its
  digits-only variant is \<open>101\<close>, which the \<open>searchableExtension\<close> of Juan Perez
  contains; the query is not made of digits and whitespace only, so the name search runs
  and returns nothing.
\<close>

theorem numeric_query_counterexample:
  "2 \<le> length (trim ''int 101'')
   \<and> digitsOnly (normalizeText (trim ''int 101'')) = ''101''
   \<and> sublist ''101'' (searchableExtension (juanPerez ''1'' ''Ventas''))
   \<and> filteredResults normalizeText ''int 101'' [juanPerez ''1'' ''Ventas''] = []"
proof -
  have "nameDepartmentSearch normalizeText ''int 101'' [''int'', ''101''] [juanPerez ''1'' ''Ventas''] = []"
    by (simp add: nameDepartmentSearch_def Let_def exactMatches_spec query_int101_preds)
  then show ?thesis
    by (simp add: filteredResults_def Let_def query_int101_values query_int101_preds)
qed

lemma query_a_values:
  "trim '' a'' = ''a''"
  "normalizeText ''a'' = ''a''"
  "searchTermsOf ''a'' = [''a'']"
  "removeSpaces ''a'' = ''a''"
  by code_simp+

lemma query_a_preds:
  "\<not> allDigits ''a''"
  "isExactMatch [''a''] (anaGomez i d)"
  "sharesExtension [anaGomez i d] (anaGomez i d)"
  by (simp_all add: allDigits_def isDigit_def isExactMatch_def sharesExtension_def anaGomez_def
      person_def perez_values)

text \<open>
  Claim C5. The claim wants an empty result for every query whose trimmed form has fewer
  than two characters. The code tests the length of the query before trimming: the query
  made of a space and the letter \<open>a\<close> has a trimmed form of one character, and it is
  searched.
\<close>

theorem short_query_is_searched:
  "length (trim '' a'') = 1
   \<and> map personOf (filteredResults normalizeText '' a'' [anaGomez ''1'' ''Compras''])
       = [anaGomez ''1'' ''Compras'']"
proof -
  let ?all = "[anaGomez ''1'' ''Compras'']"
  have ex: "exactMatches [''a''] ?all \<noteq> []"
    by (simp add: exactMatches_spec query_a_preds)
  have sub: "set (if length [''a''] = 1 then departmentMatches normalizeText ''a'' ?all else [])
               \<subseteq> set (filter (sharesExtension (exactMatches [''a''] ?all)) ?all)"
    by (auto simp: departmentMatches_def exactMatches_spec query_a_preds)
  have "nameDepartmentSearch normalizeText ''a'' [''a''] ?all = ?all"
    using nameDepartmentSearch_exact [OF ex, of normalizeText "''a''"]
      dedupById_sublist_again [OF sub]
    by (simp add: exactMatches_spec query_a_preds)
  then show ?thesis
    by (simp add: filteredResults_persons query_a_values query_a_preds)
qed

section \<open>Properties of the directory cache\<close>

text \<open>
  The single-flight guard: an invocation whose synchronous block runs while a load is in
  flight, and that is not answered from the cache, returns the promise of that load and
  starts none.
\<close>

lemma refreshBegin_joins_inflight:
  "inflight c = Some running \<Longrightarrow> force \<or> payload c = None \<or> mtimeMs c \<noteq> statMtimeMs \<Longrightarrow>
     refreshBegin c force statMtimeMs = JoinInflight running"
  by (auto simp: refreshBegin_def)

lemma refreshInternosCache_join_leaves_cache:
  "refreshBegin c force statMtimeMs = JoinInflight running \<Longrightarrow>
     refreshInternosCache c force (Inr statMtimeMs) promiseId readResult now = (Joined running, c)"
  by (simp add: refreshInternosCache_def)

lemma refreshSettle_effect:
  "refreshSettle c statMtimeMs now (Inl e) = (Inl e, c\<lparr>lastError := Some e, inflight := None\<rparr>)"
  "refreshSettle c statMtimeMs now (Inr p) =
     (Inr p, c\<lparr>mtimeMs := statMtimeMs, payload := Some p, lastLoadedAt := now,
              lastError := None, inflight := None\<rparr>)"
  by (simp_all add: refreshSettle_def)

lemma refreshInternosCache_stat_failure:
  "refreshInternosCache c force (Inl e) promiseId readResult now = (Rejected e, c)"
  by (simp add: refreshInternosCache_def)

text \<open>
  Claim C7, as amended. Take an invocation of the reload that starts a load. If the load
  fails, the cached list and the modification time are what they were, the error is
  recorded, and the invocation is rejected with the error whether or not a cached list
  exists; the directory endpoint goes on serving the cached list when there is one and
  answers with an error only when there is none. If the load succeeds, the cached list
  and the modification time are replaced in one step and the last error is cleared.
\<close>

theorem reload_keeps_snapshot_on_failure:
  "(loadPromise readResult = Inl e \<and> refreshBegin c force statMtimeMs = StartLoad
      \<and> refreshInternosCache c force (Inr statMtimeMs) promiseId readResult now = (r, c1)
    \<longrightarrow> r = Rejected e \<and> payload c1 = payload c \<and> mtimeMs c1 = mtimeMs c
        \<and> lastError c1 = Some e
        \<and> (case payload c of
              Some p \<Rightarrow> getInternos c1 = Json200 p
            | None \<Rightarrow> getInternos c1 = NotFound404 \<or> getInternos c1 = Unavailable503))
   \<and> (loadPromise readResult = Inr p \<and> refreshBegin c force statMtimeMs = StartLoad
      \<and> refreshInternosCache c force (Inr statMtimeMs) promiseId readResult now = (r, c1)
    \<longrightarrow> r = Resolved p \<and> payload c1 = Some p \<and> mtimeMs c1 = statMtimeMs
        \<and> lastError c1 = None \<and> getInternos c1 = Json200 p)"
  by (auto simp: refreshInternosCache_def refreshSettle_def getInternos_def
      split: option.splits)


theorem reload_witness:
  "refreshInternosCache cacheWithJuan True (Inr 7) 0 (Inl readFailure) 9
     = (Rejected readFailure, cacheWithJuan\<lparr>lastError := Some readFailure\<rparr>)
   \<and> getInternos (cacheWithJuan\<lparr>lastError := Some readFailure\<rparr>) = Json200 [recordJuan]
   \<and> getInternos (snd (refreshInternosCache internosCache0 True (Inr 7) 0 (Inl readFailure) 9))
       = Unavailable503
   \<and> payload (snd (refreshInternosCache cacheWithJuan True (Inr 7) 0 (Inr [rowAna]) 9))
       = Some (processExcelData [rowAna])
   \<and> mtimeMs (snd (refreshInternosCache cacheWithJuan True (Inr 7) 0 (Inr [rowAna]) 9)) = 7
   \<and> lastError (snd (refreshInternosCache
         (cacheWithJuan\<lparr>lastError := Some readFailure\<rparr>) True (Inr 7) 0 (Inr [rowAna]) 9)) = None"
proof -
  have fail: "loadPromise (Inl readFailure) = Inl readFailure"
    by (simp add: loadPromise_def)
  have ok: "loadPromise (Inr [rowAna]) = Inr (processExcelData [rowAna])"
    by (simp add: loadPromise_def clampRows_def DIRECTORY_MAX_ROWS_def DIRECTORY_MAX_COLUMNS_def
        rowAna_def Let_def)
  have b1: "refreshBegin cacheWithJuan True 7 = StartLoad"
    and b2: "refreshBegin internosCache0 True 7 = StartLoad"
    and b3: "refreshBegin (cacheWithJuan\<lparr>lastError := Some readFailure\<rparr>) True 7 = StartLoad"
    by (simp_all add: refreshBegin_def cacheWithJuan_def internosCache0_def)
  note t = reload_keeps_snapshot_on_failure
  obtain r1 c1 where e1:
    "refreshInternosCache cacheWithJuan True (Inr 7) 0 (Inl readFailure) 9 = (r1, c1)"
    by (cases "refreshInternosCache cacheWithJuan True (Inr 7) 0 (Inl readFailure) 9")
  obtain r2 c2 where e2:
    "refreshInternosCache internosCache0 True (Inr 7) 0 (Inl readFailure) 9 = (r2, c2)"
    by (cases "refreshInternosCache internosCache0 True (Inr 7) 0 (Inl readFailure) 9")
  obtain r3 c3 where e3:
    "refreshInternosCache cacheWithJuan True (Inr 7) 0 (Inr [rowAna]) 9 = (r3, c3)"
    by (cases "refreshInternosCache cacheWithJuan True (Inr 7) 0 (Inr [rowAna]) 9")
  obtain r4 c4 where e4:
    "refreshInternosCache (cacheWithJuan\<lparr>lastError := Some readFailure\<rparr>) True (Inr 7) 0
       (Inr [rowAna]) 9 = (r4, c4)"
    by (cases "refreshInternosCache (cacheWithJuan\<lparr>lastError := Some readFailure\<rparr>) True (Inr 7) 0
       (Inr [rowAna]) 9")
  from t [THEN conjunct1, rule_format, OF conjI [OF fail conjI [OF b1 e1]]]
  have f1: "r1 = Rejected readFailure" "payload c1 = payload cacheWithJuan"
    "mtimeMs c1 = mtimeMs cacheWithJuan" "lastError c1 = Some readFailure"
    "getInternos c1 = Json200 [recordJuan]"
    by (simp_all add: cacheWithJuan_def)
  from t [THEN conjunct1, rule_format, OF conjI [OF fail conjI [OF b2 e2]]]
  have f2: "getInternos c2 = Unavailable503"
    by (auto simp: internosCache0_def getInternos_def readFailure_def split: option.splits)
  from t [THEN conjunct2, rule_format, OF conjI [OF ok conjI [OF b1 e3]]]
  have f3: "payload c3 = Some (processExcelData [rowAna])" "mtimeMs c3 = 7"
    by simp_all
  from t [THEN conjunct2, rule_format, OF conjI [OF ok conjI [OF b3 e4]]]
  have f4: "lastError c4 = None"
    by simp
  have c1: "c1 = cacheWithJuan\<lparr>lastError := Some readFailure\<rparr>"
    using e1 by (simp add: refreshInternosCache_def refreshSettle_def b1 fail)
      (auto simp: cacheWithJuan_def)
  have e1': "refreshInternosCache cacheWithJuan True (Inr 7) 0 (Inl readFailure) 9
     = (Rejected readFailure, cacheWithJuan\<lparr>lastError := Some readFailure\<rparr>)"
    using e1 f1(1) c1 by simp
  have g1: "getInternos (cacheWithJuan\<lparr>lastError := Some readFailure\<rparr>) = Json200 [recordJuan]"
    using f1(5) c1 by simp
  show ?thesis
    unfolding e1' e2 e3 e4 using g1 f2 f3 f4 by simp
qed

text \<open>
  Claim C7 as stated fails for the invoker of the reload: a forced reload of a cache
  that holds a list, whose load fails, is rejected with the error.
\<close>

theorem reload_counterexample:
  "payload cacheWithJuan = Some [recordJuan]
   \<and> fst (refreshInternosCache cacheWithJuan True (Inr 7) 0 (Inl readFailure) 9)
       = Rejected readFailure"
  by (simp add: refreshInternosCache_def refreshBegin_def refreshSettle_def loadPromise_def
      cacheWithJuan_def)

section \<open>Properties of concurrent reloads\<close>

lemma singleFlight_iff:
  "singleFlight s =
     ((inflight (cacheOf s) = None \<and> awaitingLoad s = [])
      \<or> (\<exists>i. inflight (cacheOf s) = Some i \<and> map fst (awaitingLoad s) = [i]))"
  by (simp add: singleFlight_def split: option.splits)

lemma refreshSettle_clears_inflight: "inflight (snd (refreshSettle c m now outcome)) = None"
  by (cases outcome) (simp_all add: refreshSettle_def)

lemma refreshBegin_StartLoad_idle:
  "refreshBegin c force m = StartLoad \<Longrightarrow> inflight c = None"
  by (auto simp: refreshBegin_def split: option.splits if_splits)

lemma postStat_cases:
  "postStat s i force stat = s
   \<or> (inflight (cacheOf s) = None
      \<and> (\<exists>m. postStat s i force stat =
             s\<lparr>cacheOf := (cacheOf s)\<lparr>inflight := Some i\<rparr>,
               awaitingLoad := (i, m) # awaitingLoad s,
               loadsStarted := Suc (loadsStarted s)\<rparr>))"
  by (auto simp: postStat_def dest: refreshBegin_StartLoad_idle
      split: sum.splits RefreshBegin.splits)

lemma singleFlight_postStat:
  assumes "singleFlight s"
  shows "singleFlight (postStat s i force stat)"
  using postStat_cases [of s i force stat] assms
  by (auto simp: singleFlight_iff)

lemma singleFlight_step: "singleFlight s \<Longrightarrow> singleFlight (step s e)"
proof (cases e)
  case (Issue i force)
  assume "singleFlight s"
  then show ?thesis using Issue by (simp add: singleFlight_iff)
next
  case (StatDone i stat)
  assume sf: "singleFlight s"
  show ?thesis
  proof (cases "map_of (awaitingStat s) i")
    case None
    then show ?thesis using sf StatDone by simp
  next
    case (Some force)
    have "singleFlight (s\<lparr>awaitingStat := filter (\<lambda>e. fst e \<noteq> i) (awaitingStat s)\<rparr>)"
      using sf by (simp add: singleFlight_iff)
    then show ?thesis using Some StatDone by (simp add: singleFlight_postStat)
  qed
next
  case (LoadDone i readResult now)
  assume sf: "singleFlight s"
  show ?thesis
  proof (cases "map_of (awaitingLoad s) i")
    case None
    then show ?thesis using sf LoadDone by simp
  next
    case (Some m)
    then have mem: "(i, m) \<in> set (awaitingLoad s)" by (rule map_of_SomeD)
    then obtain j where j: "inflight (cacheOf s) = Some j" "map fst (awaitingLoad s) = [j]"
      using sf by (cases "inflight (cacheOf s)") (auto simp: singleFlight_iff)
    from j(2) obtain m' where one: "awaitingLoad s = [(j, m')]"
      by (cases "awaitingLoad s") auto
    with mem have "i = j" by simp
    then show ?thesis using Some LoadDone one
      by (simp add: singleFlight_iff refreshSettle_clears_inflight)
  qed
qed

lemma singleFlight_run: "singleFlight s \<Longrightarrow> singleFlight (runEvents s evs)"
  by (induction evs arbitrary: s) (simp_all add: singleFlight_step)

lemma singleFlight_at_most_one: "singleFlight s \<Longrightarrow> length (awaitingLoad s) \<le> 1"
proof -
  assume "singleFlight s"
  then have "length (map fst (awaitingLoad s)) \<le> 1"
    by (cases "inflight (cacheOf s)") (simp_all add: singleFlight_iff)
  then show ?thesis by simp
qed

lemma loadBudget_postStat:
  "singleFlight s \<Longrightarrow> loadBudget (postStat s i force stat) \<le> loadBudget s"
  using postStat_cases [of s i force stat]
  by (auto simp: loadBudget_def singleFlight_iff)

lemma loadBudget_step:
  "singleFlight s \<Longrightarrow> \<not> isLoadDone e \<Longrightarrow> loadBudget (step s e) \<le> loadBudget s"
proof (cases e)
  case (Issue i force)
  then show ?thesis by (simp add: loadBudget_def)
next
  case (StatDone i stat)
  assume sf: "singleFlight s"
  show ?thesis
  proof (cases "map_of (awaitingStat s) i")
    case None
    then show ?thesis using StatDone by simp
  next
    case (Some force)
    let ?s = "s\<lparr>awaitingStat := filter (\<lambda>e. fst e \<noteq> i) (awaitingStat s)\<rparr>"
    have "singleFlight ?s" using sf by (simp add: singleFlight_iff)
    then have "loadBudget (postStat ?s i force stat) \<le> loadBudget ?s"
      by (rule loadBudget_postStat)
    then show ?thesis using Some StatDone by (simp add: loadBudget_def)
  qed
next
  case (LoadDone i readResult now)
  assume "\<not> isLoadDone e"
  then show ?thesis using LoadDone by simp
qed

lemma loadBudget_run:
  "singleFlight s \<Longrightarrow> list_all (\<lambda>e. \<not> isLoadDone e) evs \<Longrightarrow>
     loadBudget (runEvents s evs) \<le> loadBudget s"
proof (induction evs arbitrary: s)
  case Nil
  show ?case by simp
next
  case (Cons e evs)
  have "loadBudget (runEvents (step s e) evs) \<le> loadBudget (step s e)"
    using Cons.prems by (intro Cons.IH) (simp_all add: singleFlight_step)
  also have "\<dots> \<le> loadBudget s"
    using Cons.prems by (intro loadBudget_step) simp_all
  finally show ?case by simp
qed


lemma runEvents_append: "runEvents s (evs @ later) = runEvents (runEvents s evs) later"
  by (induction evs arbitrary: s) simp_all

lemma loadPromise_rowAna: "loadPromise (Inr [rowAna]) = Inr (processExcelData [rowAna])"
  by (simp add: loadPromise_def clampRows_def DIRECTORY_MAX_ROWS_def DIRECTORY_MAX_COLUMNS_def
      rowAna_def Let_def)

lemma singleFlight_serverAtStart: "singleFlight serverAtStart"
  by (simp add: singleFlight_iff serverAtStart_def internosCache0_def)

text \<open>
  Claim C9, as amended. In every schedule at most one load is in flight. An invocation
  whose \<open>fs.stat\<close> result arrives while a load is in flight, and that is not answered
  from the cache, joins that load: it starts none and leaves the cache as it is. So
  however many invocations are issued and however their \<open>fs.stat\<close> results arrive, as
  long as no load has settled at most one load is started. In particular, from the
  start of the server, two invocations whose \<open>fs.stat\<close> results both arrive before
  the load of the first settles perform exactly one load.
\<close>

theorem single_flight_per_cache:
  "(singleFlight s \<longrightarrow> length (awaitingLoad (runEvents s evs)) \<le> 1)
   \<and> (singleFlight s \<and> inflight (cacheOf s) = Some running
        \<and> map_of (awaitingStat s) i = Some force
        \<and> (force \<or> payload (cacheOf s) = None \<or> mtimeMs (cacheOf s) \<noteq> statMtimeMs)
      \<longrightarrow> refreshBegin (cacheOf s) force statMtimeMs = JoinInflight running
          \<and> loadsStarted (step s (StatDone i (Inr statMtimeMs))) = loadsStarted s
          \<and> awaitingLoad (step s (StatDone i (Inr statMtimeMs))) = awaitingLoad s
          \<and> cacheOf (step s (StatDone i (Inr statMtimeMs))) = cacheOf s)
   \<and> (singleFlight s \<and> list_all (\<lambda>e. \<not> isLoadDone e) evs
      \<longrightarrow> loadsStarted (runEvents s evs)
            \<le> loadsStarted s + (if awaitingLoad s = [] then 1 else 0))
   \<and> (a \<noteq> b
      \<longrightarrow> loadsStarted (runEvents serverAtStart
             [Issue a forceA, Issue b forceB, StatDone a (Inr statA), StatDone b (Inr statB),
              LoadDone a readResult now]) = 1
          \<and> loadsStarted (runEvents serverAtStart
             [Issue a forceA, StatDone a (Inr statA), Issue b forceB, StatDone b (Inr statB),
              LoadDone a readResult now]) = 1)"
proof (intro conjI impI)
  assume "singleFlight s"
  then have "singleFlight (runEvents s evs)" by (rule singleFlight_run)
  then show "length (awaitingLoad (runEvents s evs)) \<le> 1" by (rule singleFlight_at_most_one)
next
  assume h: "singleFlight s \<and> inflight (cacheOf s) = Some running
        \<and> map_of (awaitingStat s) i = Some force
        \<and> (force \<or> payload (cacheOf s) = None \<or> mtimeMs (cacheOf s) \<noteq> statMtimeMs)"
  then have j: "refreshBegin (cacheOf s) force statMtimeMs = JoinInflight running"
    by (auto simp: refreshBegin_def)
  then show "refreshBegin (cacheOf s) force statMtimeMs = JoinInflight running" .
  from h j show "loadsStarted (step s (StatDone i (Inr statMtimeMs))) = loadsStarted s"
    by (simp add: postStat_def)
  from h j show "awaitingLoad (step s (StatDone i (Inr statMtimeMs))) = awaitingLoad s"
    by (simp add: postStat_def)
  from h j show "cacheOf (step s (StatDone i (Inr statMtimeMs))) = cacheOf s"
    by (simp add: postStat_def)
next
  assume h: "singleFlight s \<and> list_all (\<lambda>e. \<not> isLoadDone e) evs"
  then have "loadBudget (runEvents s evs) \<le> loadBudget s"
    by (intro loadBudget_run) simp_all
  then show "loadsStarted (runEvents s evs)
            \<le> loadsStarted s + (if awaitingLoad s = [] then 1 else 0)"
    by (simp add: loadBudget_def split: if_splits)
next
  assume "a \<noteq> b"
  then show "loadsStarted (runEvents serverAtStart
             [Issue a forceA, Issue b forceB, StatDone a (Inr statA), StatDone b (Inr statB),
              LoadDone a readResult now]) = 1"
    by (simp add: serverAtStart_def internosCache0_def postStat_def refreshBegin_def)
next
  assume "a \<noteq> b"
  then show "loadsStarted (runEvents serverAtStart
             [Issue a forceA, StatDone a (Inr statA), Issue b forceB, StatDone b (Inr statB),
              LoadDone a readResult now]) = 1"
    by (simp add: serverAtStart_def internosCache0_def postStat_def refreshBegin_def)
qed

lemmas schedule_simps =
  serverAtStart_def internosCache0_def postStat_def refreshBegin_def refreshSettle_def
  loadPromise_rowAna

theorem single_flight_witness:
  "loadsStarted (runEvents serverAtStart scheduleCoalesced) = 1
   \<and> awaitingLoad (runEvents serverAtStart scheduleCoalesced) = []"
proof -
  let ?pre = "[Issue 1 True, Issue 2 True, StatDone 1 (Inr 7), StatDone 2 (Inr 7)]"
  have split: "scheduleCoalesced = ?pre @ [LoadDone 1 (Inr [rowAna]) 9]"
    by (simp add: scheduleCoalesced_def)
  have "loadsStarted (runEvents serverAtStart ?pre)
          \<le> loadsStarted serverAtStart + (if awaitingLoad serverAtStart = [] then 1 else 0)"
    using single_flight_per_cache [of serverAtStart ?pre, THEN conjunct2, THEN conjunct2]
      singleFlight_serverAtStart
    by simp
  then have le: "loadsStarted (runEvents serverAtStart ?pre) \<le> 1"
    by (simp add: serverAtStart_def)
  have pre: "awaitingLoad (runEvents serverAtStart ?pre) = [(1, 7)]"
    and ge: "1 \<le> loadsStarted (runEvents serverAtStart ?pre)"
    by (simp_all add: schedule_simps)
  from le ge have one: "loadsStarted (runEvents serverAtStart ?pre) = 1" by simp
  show ?thesis
    unfolding split runEvents_append using one pre by simp
qed

text \<open>
  Claim C9 as stated fails. The second reload is issued while the load of the first is
  in flight (one load started, not settled), but its \<open>fs.stat\<close> result arrives after
  that load has settled: it finds \<open>inflight\<close> cleared and starts a second load.
\<close>

theorem single_flight_counterexample:
  "loadsStarted (runEvents serverAtStart [Issue 1 True, StatDone 1 (Inr 7), Issue 2 True]) = 1
   \<and> awaitingLoad (runEvents serverAtStart [Issue 1 True, StatDone 1 (Inr 7), Issue 2 True])
       = [(1, 7)]
   \<and> loadsStarted (runEvents serverAtStart scheduleLateStat) = 2"
  by (simp add: scheduleLateStat_def schedule_simps)

end
